theory Spec2Isabelle
  imports Main "HOL-Library.FSet" "HOL-Library.Sublist"
begin

section \<open>Python values, errors and dictionaries\<close>

text \<open>
  The generator is a Python module. Its exceptions become values: a missing dictionary key
  is \<open>KeyError k\<close> (a subclass of Python's \<open>LookupError\<close>), calling \<open>.items()\<close> on a string is
  \<open>AttributeError\<close>, and unpacking a tuple of the wrong length is \<open>ValueError\<close>.
\<close>

datatype py_error = KeyError string | AttributeError string | ValueError

text \<open>
  Parameter values of a fault: integers, strings, booleans and decimal literals.
  \<open>PFloat m e\<close> stands for the literal \<open>m / 10 ^ e\<close> (\<open>0.4\<close> is \<open>PFloat 4 1\<close>); no property
  below computes with it.
\<close>

datatype pval = PInt int | PFloat int nat | PStr string | PBool bool

text \<open>
  A dictionary with string keys is an association list in the order of the literal, so that
  \<open>keys\<close> keeps Python's insertion order. \<open>getitem d k\<close> is \<open>d[k]\<close>. The keys of every
  dictionary literal of the module are pairwise different, so that the first entry with a
  key is the only one.
\<close>

definition keys :: "(string \<times> 'v) list \<Rightarrow> string list" where
  "keys d = map fst d"

definition getitem :: "(string \<times> 'v) list \<Rightarrow> string \<Rightarrow> py_error + 'v" where
  "getitem d k = (case map_of d k of None \<Rightarrow> Inl (KeyError k) | Some v \<Rightarrow> Inr v)"

text \<open>Sequencing of computations that may raise: the first error is the result.\<close>

fun bind :: "py_error + 'a \<Rightarrow> ('a \<Rightarrow> py_error + 'b) \<Rightarrow> py_error + 'b" where
  "bind (Inl e) f = Inl e"
| "bind (Inr x) f = f x"

text \<open>A list comprehension whose element expression may raise.\<close>

fun comprehension :: "('a \<Rightarrow> py_error + 'b) \<Rightarrow> 'a list \<Rightarrow> py_error + 'b list" where
  "comprehension f [] = Inr []"
| "comprehension f (x # xs) =
     bind (f x) (\<lambda>y. bind (comprehension f xs) (\<lambda>ys. Inr (y # ys)))"

text \<open>\<open>s.replace(old, new)\<close> for one-character arguments.\<close>

definition str_replace :: "char \<Rightarrow> char \<Rightarrow> string \<Rightarrow> string" where
  "str_replace old new s = map (\<lambda>c. if c = old then new else c) s"

section \<open>The configuration tables\<close>

record fault_def =
  fd_type :: string
  fd_category :: string
  fd_label :: string
  fd_severities :: "(string \<times> (string \<times> pval) list) list"

record selector =
  s_pattern :: string
  s_alias :: string

record tier =
  t_label :: string
  t_selectors :: "selector list"

record timing =
  tm_duration :: string
  tm_warmup :: string
  tm_cooldown :: string

record criterion =
  c_name :: string
  c_description :: string
  c_type :: string
  c_query :: string
  c_threshold :: string
  c_critical :: bool

record criterion_w = criterion +
  c_window :: string

text \<open>
  The module-level tables the functions read. They are passed explicitly, so that the
  functions can also be studied on tables other than the ones the module defines.
\<close>

record tables =
  fault_definitions :: "(string \<times> fault_def) list"
  severity_slugs :: "(string \<times> (string \<times> string) list) list"
  severity_labels :: "(string \<times> (string \<times> string) list) list"
  target_tiers :: "(string \<times> tier) list"
  severities :: "string list"
  timing_table :: "(string \<times> timing) list"
  invariant_criteria :: "criterion list"

text \<open>
  \<open>fault_def[k]\<close>: in the source one dictionary holds the keys \<open>type\<close>, \<open>category\<close> and
  \<open>label\<close> (strings) beside the severities (parameter dictionaries). \<open>fault_def[k].items()\<close>
  on one of the three string entries raises \<open>AttributeError\<close>.
\<close>

definition fault_def_items :: "fault_def \<Rightarrow> string \<Rightarrow> py_error + (string \<times> pval) list" where
  "fault_def_items fd k =
     (if k = ''type'' \<or> k = ''category'' \<or> k = ''label'' then Inl (AttributeError ''items'')
      else getitem (fd_severities fd) k)"

text \<open>The em dash of the labels, as its three UTF-8 bytes.\<close>

definition em_dash :: string where
  "em_dash = [CHR 0xE2, CHR 0x80, CHR 0x94]"

definition FAULT_DEFINITIONS :: "(string \<times> fault_def) list" where
  "FAULT_DEFINITIONS = [
    (''packet_loss'', \<lparr>fd_type = ''network'', fd_category = ''network'',
      fd_label = ''Packet loss '' @ em_dash @ '' simulates congested / lossy network links'',
      fd_severities = [
        (''mild'', [(''packet_loss'', PInt 10), (''target_proto'', PStr ''tcp,udp''), (''device'', PStr ''eth0'')]),
        (''moderate'', [(''packet_loss'', PInt 40), (''target_proto'', PStr ''tcp,udp''), (''device'', PStr ''eth0'')]),
        (''severe'', [(''packet_loss'', PInt 80), (''target_proto'', PStr ''tcp,udp''), (''device'', PStr ''eth0'')])]\<rparr>),
    (''latency'', \<lparr>fd_type = ''network'', fd_category = ''network'',
      fd_label = ''Added network latency '' @ em_dash @ '' simulates slow / geographically distant peers'',
      fd_severities = [
        (''mild'', [(''latency'', PInt 100), (''target_proto'', PStr ''tcp,udp''), (''device'', PStr ''eth0'')]),
        (''moderate'', [(''latency'', PInt 500), (''target_proto'', PStr ''tcp,udp''), (''device'', PStr ''eth0'')]),
        (''severe'', [(''latency'', PInt 2000), (''target_proto'', PStr ''tcp,udp''), (''device'', PStr ''eth0'')])]\<rparr>),
    (''bandwidth_throttle'', \<lparr>fd_type = ''network'', fd_category = ''network'',
      fd_label = ''Bandwidth throttle '' @ em_dash @ '' simulates underpowered or constrained uplinks'',
      fd_severities = [
        (''mild'', [(''bandwidth'', PInt 10000), (''target_proto'', PStr ''tcp,udp''), (''device'', PStr ''eth0'')]),
        (''moderate'', [(''bandwidth'', PInt 1000), (''target_proto'', PStr ''tcp,udp''), (''device'', PStr ''eth0'')]),
        (''severe'', [(''bandwidth'', PInt 100), (''target_proto'', PStr ''tcp,udp''), (''device'', PStr ''eth0'')])]\<rparr>),
    (''packet_reorder'', \<lparr>fd_type = ''network'', fd_category = ''network'',
      fd_label = ''Packet reordering '' @ em_dash @ '' simulates out-of-order delivery disrupting protocol sequencing'',
      fd_severities = [
        (''mild'', [(''reorder'', PInt 25), (''latency'', PInt 10), (''target_proto'', PStr ''tcp,udp''), (''device'', PStr ''eth0'')]),
        (''moderate'', [(''reorder'', PInt 50), (''latency'', PInt 10), (''target_proto'', PStr ''tcp,udp''), (''device'', PStr ''eth0'')]),
        (''severe'', [(''reorder'', PInt 75), (''latency'', PInt 10), (''target_proto'', PStr ''tcp,udp''), (''device'', PStr ''eth0'')])]\<rparr>),
    (''connection_drop'', \<lparr>fd_type = ''connection_drop'', fd_category = ''network'',
      fd_label = ''Connection drop (iptables) '' @ em_dash @ '' simulates intermittent TCP session resets'',
      fd_severities = [
        (''mild'', [(''probability'', PFloat 1 1), (''target_proto'', PStr ''tcp''), (''rule_type'', PStr ''drop'')]),
        (''moderate'', [(''probability'', PFloat 4 1), (''target_proto'', PStr ''tcp''), (''rule_type'', PStr ''drop'')]),
        (''severe'', [(''probability'', PFloat 8 1), (''target_proto'', PStr ''tcp''), (''rule_type'', PStr ''drop'')])]\<rparr>),
    (''dns_latency'', \<lparr>fd_type = ''dns'', fd_category = ''network'',
      fd_label = ''DNS latency / failure '' @ em_dash @ '' simulates slow or flaky service discovery'',
      fd_severities = [
        (''mild'', [(''delay_ms'', PInt 250), (''failure_rate'', PFloat 0 1)]),
        (''moderate'', [(''delay_ms'', PInt 1000), (''failure_rate'', PFloat 1 1)]),
        (''severe'', [(''delay_ms'', PInt 5000), (''failure_rate'', PFloat 3 1)])]\<rparr>),
    (''container_restart'', \<lparr>fd_type = ''container_restart'', fd_category = ''applications'',
      fd_label = ''Container restart '' @ em_dash @ '' simulates process crash and recovery'',
      fd_severities = [
        (''mild'', [(''grace_period'', PInt 30)]),
        (''moderate'', [(''grace_period'', PInt 5)]),
        (''severe'', [(''grace_period'', PInt 0)])]\<rparr>),
    (''container_pause'', \<lparr>fd_type = ''container_pause'', fd_category = ''applications'',
      fd_label = ''Container pause (SIGSTOP) '' @ em_dash @ '' simulates frozen process / GC pause / OOM stall'',
      fd_severities = [
        (''mild'', [(''duration'', PStr ''30s''), (''unpause'', PBool True)]),
        (''moderate'', [(''duration'', PStr ''60s''), (''unpause'', PBool True)]),
        (''severe'', [(''duration'', PStr ''120s''), (''unpause'', PBool True)])]\<rparr>),
    (''cpu_stress'', \<lparr>fd_type = ''cpu_stress'', fd_category = ''cpu-memory'',
      fd_label = ''CPU stress '' @ em_dash @ '' simulates CPU-bound workload competing with validator logic'',
      fd_severities = [
        (''mild'', [(''cpu_percent'', PInt 50)]),
        (''moderate'', [(''cpu_percent'', PInt 75)]),
        (''severe'', [(''cpu_percent'', PInt 95)])]\<rparr>),
    (''memory_pressure'', \<lparr>fd_type = ''memory_stress'', fd_category = ''cpu-memory'',
      fd_label = ''Memory pressure '' @ em_dash @ '' simulates memory-constrained environment / memory leak'',
      fd_severities = [
        (''mild'', [(''memory_mb'', PInt 256)]),
        (''moderate'', [(''memory_mb'', PInt 512)]),
        (''severe'', [(''memory_mb'', PInt 1024)])]\<rparr>),
    (''disk_io'', \<lparr>fd_type = ''disk_io'', fd_category = ''filesystem'',
      fd_label = ''Disk I/O delay '' @ em_dash @ '' simulates slow storage (HDD / NFS / overloaded SSD)'',
      fd_severities = [
        (''mild'', [(''io_latency_ms'', PInt 100), (''operation'', PStr ''all'')]),
        (''moderate'', [(''io_latency_ms'', PInt 500), (''operation'', PStr ''all'')]),
        (''severe'', [(''io_latency_ms'', PInt 2000), (''operation'', PStr ''all'')])]\<rparr>)]"

text \<open>\<open>sev3 a b c\<close> is the dictionary literal \<open>{"mild": a, "moderate": b, "severe": c}\<close>.\<close>

definition sev3 :: "string \<Rightarrow> string \<Rightarrow> string \<Rightarrow> (string \<times> string) list" where
  "sev3 a b c = [(''mild'', a), (''moderate'', b), (''severe'', c)]"

definition SEVERITY_SLUGS :: "(string \<times> (string \<times> string) list) list" where
  "SEVERITY_SLUGS = [
    (''packet_loss'', sev3 ''10pct'' ''40pct'' ''80pct''),
    (''latency'', sev3 ''100ms'' ''500ms'' ''2s''),
    (''bandwidth_throttle'', sev3 ''10mbps'' ''1mbps'' ''100kbps''),
    (''packet_reorder'', sev3 ''25pct'' ''50pct'' ''75pct''),
    (''connection_drop'', sev3 ''10pct'' ''40pct'' ''80pct''),
    (''dns_latency'', sev3 ''250ms'' ''1s'' ''5s''),
    (''container_restart'', sev3 ''graceful'' ''quick'' ''immediate''),
    (''container_pause'', sev3 ''30s'' ''60s'' ''120s''),
    (''cpu_stress'', sev3 ''50pct'' ''75pct'' ''95pct''),
    (''memory_pressure'', sev3 ''256mb'' ''512mb'' ''1gb''),
    (''disk_io'', sev3 ''100ms'' ''500ms'' ''2s'')]"

definition SEVERITY_LABELS :: "(string \<times> (string \<times> string) list) list" where
  "SEVERITY_LABELS = [
    (''packet_loss'', sev3 ''10% packet loss'' ''40% packet loss'' ''80% packet loss''),
    (''latency'', sev3 ''100 ms added latency'' ''500 ms added latency'' ''2 s added latency''),
    (''bandwidth_throttle'', sev3 ''10 Mbps cap'' ''1 Mbps cap'' ''100 kbps cap''),
    (''packet_reorder'', sev3 ''25% reorder'' ''50% reorder'' ''75% reorder''),
    (''connection_drop'', sev3 ''10% TCP drop prob.'' ''40% TCP drop prob.'' ''80% TCP drop prob.''),
    (''dns_latency'', sev3 ''250 ms DNS delay'' ''1 s DNS delay'' ''5 s DNS delay / 30% fail''),
    (''container_restart'', sev3 ''graceful (30 s grace)'' ''fast (5 s grace)'' ''immediate (0 s grace)''),
    (''container_pause'', sev3 ''30 s pause'' ''60 s pause'' ''120 s pause''),
    (''cpu_stress'', sev3 ''50% CPU load'' ''75% CPU load'' ''95% CPU load''),
    (''memory_pressure'', sev3 ''256 MB pressure'' ''512 MB pressure'' ''1 GB pressure''),
    (''disk_io'', sev3 ''100 ms I/O delay'' ''500 ms I/O delay'' ''2 s I/O delay'')]"

definition TARGET_TIERS :: "(string \<times> tier) list" where
  "TARGET_TIERS = [
    (''validator1_heimdall'', \<lparr>
      t_label = ''validator 1 '' @ em_dash @ '' Heimdall consensus layer only'',
      t_selectors = [
        \<lparr>s_pattern = ''l2-cl-1-heimdall-v2-bor-validator'', s_alias = ''target_heimdall''\<rparr>]\<rparr>),
    (''validator1_bor'', \<lparr>
      t_label = ''validator 1 '' @ em_dash @ '' Bor execution layer only'',
      t_selectors = [
        \<lparr>s_pattern = ''l2-el-1-bor-heimdall-v2-validator'', s_alias = ''target_bor''\<rparr>]\<rparr>),
    (''validator1_both'', \<lparr>
      t_label = ''validator 1 '' @ em_dash @ '' Heimdall + Bor (both layers of one validator)'',
      t_selectors = [
        \<lparr>s_pattern = ''l2-cl-1-heimdall-v2-bor-validator'', s_alias = ''target_heimdall''\<rparr>,
        \<lparr>s_pattern = ''l2-el-1-bor-heimdall-v2-validator'', s_alias = ''target_bor''\<rparr>]\<rparr>),
    (''all_heimdall'', \<lparr>
      t_label = ''all validators '' @ em_dash @ '' Heimdall consensus layer (wildcard)'',
      t_selectors = [
        \<lparr>s_pattern = ''l2-cl-.*-heimdall-v2-bor-validator'', s_alias = ''target_heimdall''\<rparr>]\<rparr>),
    (''all_bor'', \<lparr>
      t_label = ''all validators '' @ em_dash @ '' Bor execution layer (wildcard)'',
      t_selectors = [
        \<lparr>s_pattern = ''l2-el-.*-bor-heimdall-v2-validator'', s_alias = ''target_bor''\<rparr>]\<rparr>),
    (''all_both'', \<lparr>
      t_label = ''all validators '' @ em_dash @ '' Heimdall + Bor both layers (wildcard)'',
      t_selectors = [
        \<lparr>s_pattern = ''l2-cl-.*-heimdall-v2-bor-validator'', s_alias = ''target_heimdall''\<rparr>,
        \<lparr>s_pattern = ''l2-el-.*-bor-heimdall-v2-validator'', s_alias = ''target_bor''\<rparr>]\<rparr>),
    (''rabbitmq'', \<lparr>
      t_label = ''RabbitMQ message broker (Heimdall event bus)'',
      t_selectors = [
        \<lparr>s_pattern = ''l2-cl-.*-rabbitmq'', s_alias = ''target_rabbitmq''\<rparr>]\<rparr>),
    (''rpc_nodes'', \<lparr>
      t_label = ''Bor RPC-only nodes (non-validator full nodes)'',
      t_selectors = [
        \<lparr>s_pattern = ''l2-el-.*-bor-heimdall-v2-rpc'', s_alias = ''target_rpc''\<rparr>]\<rparr>)]"

definition SEVERITIES :: "string list" where
  "SEVERITIES = [''mild'', ''moderate'', ''severe'']"

definition TIMING :: "(string \<times> timing) list" where
  "TIMING = [
    (''mild'', \<lparr>tm_duration = ''3m'', tm_warmup = ''30s'', tm_cooldown = ''30s''\<rparr>),
    (''moderate'', \<lparr>tm_duration = ''5m'', tm_warmup = ''60s'', tm_cooldown = ''60s''\<rparr>),
    (''severe'', \<lparr>tm_duration = ''8m'', tm_warmup = ''2m'', tm_cooldown = ''2m''\<rparr>)]"

definition INVARIANT_CRITERIA :: "criterion list" where
  "INVARIANT_CRITERIA = [
    \<lparr>c_name = ''block_production_continues'',
     c_description = ''Network continues producing Bor blocks during the fault'',
     c_type = ''prometheus'',
     c_query = ''increase(chain_head_block{job=~'' @ [CHR 0x22] @ ''l2-el-.*-bor-heimdall-v2-validator'' @ [CHR 0x22] @ ''}[1m])'',
     c_threshold = ''> 0'',
     c_critical = True\<rparr>,
    \<lparr>c_name = ''consensus_height_advances'',
     c_description = ''Heimdall consensus height continues to increase'',
     c_type = ''prometheus'',
     c_query = ''increase(cometbft_consensus_height{job=~'' @ [CHR 0x22] @ ''l2-cl-.*-heimdall-v2-bor-validator'' @ [CHR 0x22] @ ''}[1m])'',
     c_threshold = ''> 0'',
     c_critical = True\<rparr>,
    \<lparr>c_name = ''bft_quorum_maintained'',
     c_description = ''At least 2/3 of validators remain online (topology-safe BFT quorum ratio)'',
     c_type = ''prometheus'',
     c_query = ''count(up{job=~'' @ [CHR 0x22] @ ''l2-cl-.*-heimdall-v2-bor-validator'' @ [CHR 0x22] @ ''} == 1)''
       @ '' / scalar(count(up{job=~'' @ [CHR 0x22] @ ''l2-cl-.*-heimdall-v2-bor-validator'' @ [CHR 0x22] @ ''}))'',
     c_threshold = ''>= 0.67'',
     c_critical = True\<rparr>]"

definition module_tables :: tables where
  "module_tables = \<lparr>
     fault_definitions = FAULT_DEFINITIONS,
     severity_slugs = SEVERITY_SLUGS,
     severity_labels = SEVERITY_LABELS,
     target_tiers = TARGET_TIERS,
     severities = SEVERITIES,
     timing_table = TIMING,
     invariant_criteria = INVARIANT_CRITERIA\<rparr>"

section \<open>The scenario record\<close>

record scenario_metadata =
  md_name :: string
  md_description :: string
  md_tags :: "string list"
  md_author :: string
  md_version :: string

record target_selector =
  sel_type :: string
  sel_enclave :: string
  sel_pattern :: string

record target =
  tg_selector :: target_selector
  tg_alias :: string

record fault_entry =
  f_phase :: string
  f_description :: string
  f_target :: string
  f_type :: string
  f_params :: "(string \<times> pval) list"

record scenario_spec =
  sp_targets :: "target list"
  sp_duration :: string
  sp_warmup :: string
  sp_cooldown :: string
  sp_faults :: "fault_entry list"
  sp_success_criteria :: "criterion_w list"
  sp_metrics :: "string list"

record scenario =
  apiVersion :: string
  kind :: string
  metadata :: scenario_metadata
  spec :: scenario_spec

section \<open>The scenario builder\<close>

definition scenario_description :: "tables \<Rightarrow> string \<Rightarrow> string \<Rightarrow> string \<Rightarrow> py_error + string" where
  "scenario_description T fault_type target_tier severity =
     bind (getitem (severity_labels T) fault_type) (\<lambda>labels.
     bind (getitem labels severity) (\<lambda>fault_label.
     bind (getitem (target_tiers T) target_tier) (\<lambda>tier.
     bind (getitem (fault_definitions T) fault_type) (\<lambda>fault_def.
       Inr (fault_label @ '' on '' @ t_label tier @ ''. '' @ fd_label fault_def @ ''.'')))))"

definition build_fault ::
  "tables \<Rightarrow> string \<Rightarrow> string \<Rightarrow> fault_def \<Rightarrow> (string \<times> pval) list \<Rightarrow> selector
     \<Rightarrow> py_error + fault_entry" where
  "build_fault T fault_type severity fault_def base_params s =
     bind (getitem (severity_labels T) fault_type) (\<lambda>labels.
     bind (getitem labels severity) (\<lambda>label.
       Inr \<lparr>f_phase = str_replace CHR ''_'' CHR ''-'' fault_type @ ''-'' @ s_alias s,
            f_description = label @ '' applied to '' @ s_alias s,
            f_target = s_alias s,
            f_type = fd_type fault_def,
            f_params = base_params\<rparr>))"

definition build_target :: "selector \<Rightarrow> target" where
  "build_target s =
     \<lparr>tg_selector = \<lparr>sel_type = ''kurtosis_service'', sel_enclave = ''${ENCLAVE_NAME}'',
                      sel_pattern = s_pattern s\<rparr>,
      tg_alias = s_alias s\<rparr>"

definition build_scenario :: "tables \<Rightarrow> string \<Rightarrow> string \<Rightarrow> string \<Rightarrow> py_error + scenario" where
  "build_scenario T fault_type target_tier severity =
     bind (getitem (fault_definitions T) fault_type) (\<lambda>fault_def.
     bind (getitem (target_tiers T) target_tier) (\<lambda>tier.
     bind (getitem (timing_table T) severity) (\<lambda>timing.
     let selectors = t_selectors tier in
     bind (fault_def_items fault_def severity) (\<lambda>base_params.
     bind (comprehension (build_fault T fault_type severity fault_def base_params) selectors) (\<lambda>faults.
     let criteria = map (\<lambda>c. criterion.extend c (criterion_w.fields (tm_duration timing)))
                        (invariant_criteria T) in
     bind (getitem (severity_slugs T) fault_type) (\<lambda>slugs.
     bind (getitem slugs severity) (\<lambda>slug.
     let name = ''gen'' @ ''-'' @ str_replace CHR ''_'' CHR ''-'' fault_type
                  @ ''-'' @ slug
                  @ ''-'' @ str_replace CHR ''_'' CHR ''-'' target_tier in
     bind (scenario_description T fault_type target_tier severity) (\<lambda>description.
       Inr \<lparr>apiVersion = ''chaos.polygon.io/v1'',
            kind = ''ChaosScenario'',
            metadata = \<lparr>
              md_name = name,
              md_description = description,
              md_tags = [''generated'', str_replace CHR ''_'' CHR ''-'' fault_type, slug, target_tier],
              md_author = ''scripts/generate_scenarios.py'',
              md_version = ''0.0.1''\<rparr>,
            spec = \<lparr>
              sp_targets = map build_target selectors,
              sp_duration = tm_duration timing,
              sp_warmup = tm_warmup timing,
              sp_cooldown = tm_cooldown timing,
              sp_faults = faults,
              sp_success_criteria = criteria,
              sp_metrics = [''chain_head_block'', ''cometbft_consensus_height'',
                            ''cometbft_consensus_validators'', ''up'']\<rparr>\<rparr>))))))))"

section \<open>Combination strategies\<close>

text \<open>
  \<open>itertools.product(*dimensions)\<close>: the tuples of the Cartesian product, as nested loops
  with the rightmost dimension advancing fastest. A tuple is a list of its components.
\<close>

fun itertools_product :: "'a list list \<Rightarrow> 'a list list" where
  "itertools_product [] = [[]]"
| "itertools_product (xs # xss) =
     concat (map (\<lambda>x. map (\<lambda>t. x # t) (itertools_product xss)) xs)"

definition full_combinations :: "tables \<Rightarrow> string list list" where
  "full_combinations T =
     itertools_product [keys (fault_definitions T), keys (target_tiers T), severities T]"

text \<open>
  The greedy pairwise reduction. A requirement \<open>(i, vi, j, vj)\<close> asks for a combination with
  value \<open>vi\<close> in dimension \<open>i\<close> and \<open>vj\<close> in dimension \<open>j\<close>, for \<open>i < j\<close>. Python's sets are
  finite sets; \<open>covered < required\<close> is the proper-subset test.
\<close>

type_synonym requirement = "nat \<times> string \<times> nat \<times> string"

text \<open>The index pairs \<open>for i in range(n) for j in range(i + 1, n)\<close>.\<close>

definition index_pairs :: "nat \<Rightarrow> (nat \<times> nat) list" where
  "index_pairs n = concat (map (\<lambda>i. map (\<lambda>j. (i, j)) [i + 1..<n]) [0..<n])"

definition required_pairs :: "string list list \<Rightarrow> requirement fset" where
  "required_pairs dimensions =
     fset_of_list (concat (map (\<lambda>(i, j).
       concat (map (\<lambda>vi. map (\<lambda>vj. (i, vi, j, vj)) (dimensions ! j)) (dimensions ! i)))
       (index_pairs (length dimensions))))"

definition projections :: "nat \<Rightarrow> string list \<Rightarrow> requirement list" where
  "projections n combo = map (\<lambda>(i, j). (i, combo ! i, j, combo ! j)) (index_pairs n)"

text \<open>The number of pairwise projections of \<open>combo\<close> that are not covered yet (\<open>new\<close>).\<close>

definition count_new :: "nat \<Rightarrow> requirement fset \<Rightarrow> string list \<Rightarrow> int" where
  "count_new n covered combo =
     int (length (filter (\<lambda>r. r |\<notin>| covered) (projections n combo)))"

text \<open>
  One pass of the inner \<open>for combo in all_combos\<close> loop, from \<open>(None, -1)\<close>: the best
  combination changes only on a strictly larger count.
\<close>

definition scan ::
  "nat \<Rightarrow> requirement fset \<Rightarrow> string list \<Rightarrow> string list option \<times> int \<Rightarrow> string list option \<times> int" where
  "scan n covered combo best =
     (case best of (best_combo, best_new) \<Rightarrow>
        let new = count_new n covered combo in
        if new > best_new then (Some combo, new) else (best_combo, best_new))"

definition find_best ::
  "nat \<Rightarrow> requirement fset \<Rightarrow> string list list \<Rightarrow> string list option \<times> int" where
  "find_best n covered all_combos = fold (scan n covered) all_combos (None, - 1)"

definition mark_covered :: "nat \<Rightarrow> string list \<Rightarrow> requirement fset \<Rightarrow> requirement fset" where
  "mark_covered n best_combo covered = covered |\<union>| fset_of_list (projections n best_combo)"

text \<open>Facts about the scan that the termination of the outer loop needs.\<close>

lemma scan_fold_sound:
  "fold (scan n covered) xs (b, k) = (Some c, k') \<Longrightarrow> b \<noteq> Some c \<or> k \<noteq> k' \<Longrightarrow> k' = count_new n covered c"
  apply (induction xs arbitrary: b k)
   apply (auto simp: scan_def Let_def split: if_splits)
  done

lemma find_best_count:
  "find_best n covered all_combos = (Some c, k) \<Longrightarrow> k = count_new n covered c"
  unfolding find_best_def using scan_fold_sound[of n covered all_combos None "-1" c k] by auto

lemma count_new_pos:
  "0 < count_new n covered c \<Longrightarrow> \<exists>r \<in> set (projections n c). r |\<notin>| covered"
  unfolding count_new_def
  by (metis filter_False length_0_conv of_nat_0 less_irrefl)

lemma count_new_nonneg: "0 \<le> count_new n covered c"
  by (simp add: count_new_def)

lemma mark_covered_grows:
  assumes "find_best n covered all_combos = (Some bc, k)" and "k \<noteq> 0"
  shows "covered |\<subset>| mark_covered n bc covered"
proof -
  have "k = count_new n covered bc" using assms(1) by (rule find_best_count)
  with assms(2) count_new_nonneg[of n covered bc] have "0 < count_new n covered bc" by simp
  then obtain r where r: "r \<in> set (projections n bc)" "r |\<notin>| covered"
    using count_new_pos by blast
  then have "r |\<in>| mark_covered n bc covered"
    by (simp add: mark_covered_def fset_of_list.rep_eq)
  with r(2) show ?thesis
    by (auto simp: mark_covered_def)
qed

lemma loop_measure_decreases:
  assumes "covered |\<subset>| required" and "find_best n covered all_combos = (Some bc, k)" and "k \<noteq> 0"
  shows "(if mark_covered n bc covered |\<subset>| required
          then Suc (fcard (required |-| mark_covered n bc covered)) else 0)
         < Suc (fcard (required |-| covered))"
proof (cases "mark_covered n bc covered |\<subset>| required")
  case True
  have "covered |\<subset>| mark_covered n bc covered" using assms(2,3) by (rule mark_covered_grows)
  with True have "required |-| mark_covered n bc covered |\<subset>| required |-| covered"
    by auto
  then have "fcard (required |-| mark_covered n bc covered) < fcard (required |-| covered)"
    by (rule pfsubset_fcard_mono)
  with True show ?thesis by simp
next
  case False
  then show ?thesis by simp
qed

text \<open>
  The \<open>while covered < required\<close> loop. It stops when everything is covered, when there is
  no combination at all, or when the best combination covers nothing new.
\<close>

function pairwise_loop ::
  "string list list \<Rightarrow> nat \<Rightarrow> requirement fset \<Rightarrow> requirement fset \<Rightarrow> string list list
     \<Rightarrow> string list list" where
  "pairwise_loop all_combos n required covered selected =
     (if covered |\<subset>| required then
        (case find_best n covered all_combos of
           (None, best_new) \<Rightarrow> selected
         | (Some best_combo, best_new) \<Rightarrow>
             if best_new = 0 then selected
             else pairwise_loop all_combos n required
                    (mark_covered n best_combo covered) (selected @ [best_combo]))
      else selected)"
  by pat_completeness auto
termination
  apply (relation "measure (\<lambda>(all_combos, n, required, covered, selected).
         if covered |\<subset>| required then Suc (fcard (required |-| covered)) else 0)")
   apply simp
  apply (simp only: in_measure prod.case if_True)
  apply (rule loop_measure_decreases)
    apply assumption
   apply (rule sym, assumption)
  apply assumption
  done

declare pairwise_loop.simps [simp del]

text \<open>
  \<open>pairwise_combinations\<close>. The optional library \<open>allpairspy\<close> is a parameter: \<open>None\<close> is the
  \<open>ImportError\<close> branch, in which the built-in greedy algorithm runs.
\<close>

definition dimensions :: "tables \<Rightarrow> string list list" where
  "dimensions T = [keys (fault_definitions T), keys (target_tiers T), severities T]"

text \<open>The built-in greedy implementation, on the list of dimensions.\<close>

definition builtin_greedy :: "string list list \<Rightarrow> string list list" where
  "builtin_greedy dims =
     (let all_combos = itertools_product dims;
          n = length dims;
          required = required_pairs dims
      in pairwise_loop all_combos n required {||} [])"

definition pairwise_combinations ::
  "tables \<Rightarrow> (string list list \<Rightarrow> string list list) option \<Rightarrow> string list list" where
  "pairwise_combinations T allpairspy =
     (case allpairspy of
        Some AllPairs \<Rightarrow> AllPairs (dimensions T)
      | None \<Rightarrow> builtin_greedy (dimensions T))"

section \<open>The preview listing and the generation loop\<close>

text \<open>
  \<open>_print_list\<close> first collects one row (name, description, category, duration) per
  combination: \<open>print_list_row\<close> is the body of that loop and \<open>print_list_rows\<close> the loop.
  \<open>print_list\<close> below is the whole function.
\<close>

fun print_list_row :: "tables \<Rightarrow> string list \<Rightarrow> py_error + string \<times> string \<times> string \<times> string" where
  "print_list_row T [ft, tt, sv] =
     bind (getitem (severity_slugs T) ft) (\<lambda>slugs.
     bind (getitem slugs sv) (\<lambda>slug.
     let name = ''gen-'' @ str_replace CHR ''_'' CHR ''-'' ft @ ''-'' @ slug @ ''-''
                  @ str_replace CHR ''_'' CHR ''-'' tt in
     bind (getitem (severity_labels T) ft) (\<lambda>labels.
     bind (getitem labels sv) (\<lambda>label.
     bind (getitem (target_tiers T) tt) (\<lambda>tier.
     let desc = label @ '' on '' @ t_label tier in
     bind (getitem (fault_definitions T) ft) (\<lambda>fault_def.
     let category = fd_category fault_def in
     bind (getitem (timing_table T) sv) (\<lambda>timing.
     let dur = tm_duration timing in
       Inr (name, desc, category, dur))))))))"
| "print_list_row T combo = Inl ValueError"

definition print_list_rows ::
  "tables \<Rightarrow> string list list \<Rightarrow> py_error + (string \<times> string \<times> string \<times> string) list" where
  "print_list_rows T combos = comprehension (print_list_row T) combos"

text \<open>
  \<open>len(s)\<close> counts code points. The strings here are lists of UTF-8 bytes, in which every
  code point has exactly one byte outside the continuation range \<open>0x80..0xBF\<close>.
\<close>

definition py_len :: "string \<Rightarrow> nat" where
  "py_len s = length (filter (\<lambda>c. \<not> (0x80 \<le> (of_char c :: nat) \<and> (of_char c :: nat) \<le> 0xBF)) s)"

text \<open>\<open>max(...)\<close> of a sequence raises \<open>ValueError\<close> when the sequence is empty.\<close>

definition py_max :: "nat list \<Rightarrow> py_error + nat" where
  "py_max xs = (case xs of [] \<Rightarrow> Inl ValueError | x # ys \<Rightarrow> Inr (fold max ys x))"

text \<open>The format specification \<open>{s:<w}\<close>: \<open>s\<close> padded with spaces on the right to width \<open>w\<close>.\<close>

definition ljust :: "nat \<Rightarrow> string \<Rightarrow> string" where
  "ljust w s = s @ replicate (w - py_len s) CHR '' ''"

text \<open>\<open>str(n)\<close> for a natural number: its decimal digits.\<close>

fun str_of_nat :: "nat \<Rightarrow> string" where
  "str_of_nat n =
     (if n < 10 then [char_of (48 + n)]
      else str_of_nat (n div 10) @ [char_of (48 + n mod 10)])"

declare str_of_nat.simps [simp del]

text \<open>The box-drawing character of the rule below the header, as its three UTF-8 bytes.\<close>

definition box_horizontal :: string where
  "box_horizontal = [CHR 0xE2, CHR 0x94, CHR 0x80]"

text \<open>
  \<open>_print_list\<close>: the rows, the three column widths (each a \<open>max\<close> over the rows, which
  raises \<open>ValueError\<close> when there is no row), then the header, the rule and one line per
  row, numbered from 1. The result is the list of lines printed.
\<close>

definition print_list :: "tables \<Rightarrow> string list list \<Rightarrow> py_error + string list" where
  "print_list T combos =
     bind (print_list_rows T combos) (\<lambda>rows.
     bind (py_max (map (\<lambda>(name, desc, category, dur). py_len name) rows)) (\<lambda>w_name.
     bind (py_max (map (\<lambda>(name, desc, category, dur). py_len desc) rows)) (\<lambda>w_desc.
     bind (py_max (map (\<lambda>(name, desc, category, dur). py_len category) rows)) (\<lambda>w_cat.
     let header = ljust 5 ''#'' @ ''  '' @ ljust w_name ''scenario name'' @ ''  ''
                    @ ljust w_desc ''what it tests'' @ ''  '' @ ljust w_cat ''category'' @ ''  dur''
     in Inr (header # concat (replicate (py_len header) box_horizontal)
             # map (\<lambda>(idx, (name, desc, cat, dur)).
                      ljust 5 (str_of_nat idx) @ ''  '' @ ljust w_name name @ ''  ''
                        @ ljust w_desc desc @ ''  '' @ ljust w_cat cat @ ''  '' @ dur)
                   (zip [1..<Suc (length rows)] rows))))))"

text \<open>
  The loop of \<open>main\<close> that assembles one record per combination and writes it. A written
  file is the pair of its path below the output root, \<open>category/name.yaml\<close>, and the record
  (the YAML text and the errors of the file system are not modelled). The result is the
  list of files written and the exception that ended the loop, if any.
\<close>

fun write_scenarios ::
  "tables \<Rightarrow> string list list \<Rightarrow> (string \<times> scenario) list
     \<Rightarrow> (string \<times> scenario) list \<times> py_error option" where
  "write_scenarios T [] written = (written, None)"
| "write_scenarios T (combo # combos) written =
     (case combo of
        [ft, tt, sv] \<Rightarrow>
          (case build_scenario T ft tt sv of
             Inl e \<Rightarrow> (written, Some e)
           | Inr scenario \<Rightarrow>
               (case getitem (fault_definitions T) ft of
                  Inl e \<Rightarrow> (written, Some e)
                | Inr fault_def \<Rightarrow>
                    write_scenarios T combos
                      (written @ [(fd_category fault_def @ ''/'' @ md_name (metadata scenario)
                                     @ ''.yaml'', scenario)])))
      | _ \<Rightarrow> (written, Some ValueError))"

text \<open>
  \<open>main\<close>, with the command-line switches \<open>--pairwise\<close> and \<open>--list\<close> as arguments. With
  \<open>--list\<close> it prints the preview table and returns; otherwise it runs the loop above. The
  result is the table printed by \<open>_print_list\<close> (if any), the files written, and the
  exception raised (if any); the other messages of \<open>main\<close> on standard output are not
  modelled. The tables are module-level literals: nothing between their definition and
  these calls inspects them.
\<close>

definition main ::
  "tables \<Rightarrow> bool \<Rightarrow> bool \<Rightarrow> (string list list \<Rightarrow> string list list) option
     \<Rightarrow> string list option \<times> (string \<times> scenario) list \<times> py_error option" where
  "main T pairwise_flag list_only allpairspy =
     (let combos = (if pairwise_flag then pairwise_combinations T allpairspy else full_combinations T)
      in if list_only then
           (case print_list T combos of
              Inl e \<Rightarrow> (None, [], Some e)
            | Inr table \<Rightarrow> (Some table, [], None))
         else
           (case write_scenarios T combos [] of (written, raised) \<Rightarrow> (None, written, raised)))"

section \<open>Predicates used in the statements\<close>

text \<open>
  The requirements covered by a list of combinations, and the rule by which a round
  chooses: \<open>is_first_best n covered all_combos c\<close> says that \<open>c\<close> is the first element of
  \<open>all_combos\<close> among those with the largest number of uncovered projections.
\<close>

definition covered_by :: "nat \<Rightarrow> string list list \<Rightarrow> requirement fset" where
  "covered_by n selected = fset_of_list (concat (map (projections n) selected))"

definition is_first_best ::
  "nat \<Rightarrow> requirement fset \<Rightarrow> string list list \<Rightarrow> string list \<Rightarrow> bool" where
  "is_first_best n covered all_combos c \<longleftrightarrow>
     (\<exists>i < length all_combos. all_combos ! i = c
        \<and> (\<forall>j < length all_combos. count_new n covered (all_combos ! j) \<le> count_new n covered c)
        \<and> (\<forall>j < i. count_new n covered (all_combos ! j) < count_new n covered c))"

text \<open>
  The tables are complete when every lookup that \<open>build_scenario\<close> makes for declared
  dimension values finds its key: every fault has a parameter set, a slug and a label for
  every severity, every severity has a timing profile, and no severity is named like one
  of the string entries of a fault definition.
\<close>

definition tables_complete :: "tables \<Rightarrow> bool" where
  "tables_complete T \<longleftrightarrow>
     list_all (\<lambda>(ft, fd). list_all (\<lambda>sv. sv \<in> set (keys (fd_severities fd))) (severities T))
       (fault_definitions T)
     \<and> list_all (\<lambda>ft. ft \<in> set (keys (severity_slugs T)) \<and> ft \<in> set (keys (severity_labels T)))
         (keys (fault_definitions T))
     \<and> list_all (\<lambda>(ft, m). list_all (\<lambda>sv. sv \<in> set (keys m)) (severities T)) (severity_slugs T)
     \<and> list_all (\<lambda>(ft, m). list_all (\<lambda>sv. sv \<in> set (keys m)) (severities T)) (severity_labels T)
     \<and> list_all (\<lambda>sv. sv \<in> set (keys (timing_table T))
                      \<and> sv \<noteq> ''type'' \<and> sv \<noteq> ''category'' \<and> sv \<noteq> ''label'') (severities T)"

text \<open>
  What the name function needs from the tables to be injective: the hyphenated fault
  types followed by a hyphen are prefix-free, the hyphenated tiers are pairwise different,
  and the slugs of one fault type are pairwise different and contain no hyphen.
\<close>

definition names_separable :: "tables \<Rightarrow> bool" where
  "names_separable T \<longleftrightarrow>
     (let fs = map (\<lambda>ft. str_replace CHR ''_'' CHR ''-'' ft @ ''-'') (keys (fault_definitions T))
      in distinct fs \<and> list_all (\<lambda>a. list_all (\<lambda>b. prefix a b \<longrightarrow> a = b) fs) fs)
     \<and> distinct (map (str_replace CHR ''_'' CHR ''-'') (keys (target_tiers T)))
     \<and> list_all (\<lambda>(ft, slugs). distinct (map snd slugs)
                   \<and> list_all (\<lambda>(sv, slug). CHR ''-'' \<notin> set slug) slugs) (severity_slugs T)"

text \<open>
  The condition under which the specification asks for a configuration error: a dimension
  is empty, a fault type lacks a parameter set for a declared severity, or a target tier
  has no selector.
\<close>

definition spec_config_invalid :: "tables \<Rightarrow> bool" where
  "spec_config_invalid T \<longleftrightarrow>
     list_ex (\<lambda>d. d = []) (dimensions T)
     \<or> list_ex (\<lambda>(ft, fd). list_ex (\<lambda>sv. sv \<notin> set (keys (fd_severities fd))) (severities T))
          (fault_definitions T)
     \<or> list_ex (\<lambda>(tt, tier). t_selectors tier = []) (target_tiers T)"

text \<open>
  Small tables with one fault type (parameters for \<open>mild\<close> only) and one target tier, with
  the tier's selectors and the severity dimension left open.
\<close>

definition example_tables :: "selector list \<Rightarrow> string list \<Rightarrow> tables" where
  "example_tables sels sevs = \<lparr>
     fault_definitions = [(''cpu_stress'',
       \<lparr>fd_type = ''cpu_stress'', fd_category = ''cpu-memory'', fd_label = ''CPU stress'',
        fd_severities = [(''mild'', [(''cpu_percent'', PInt 50)])]\<rparr>)],
     severity_slugs = [(''cpu_stress'', [(''mild'', ''50pct''), (''moderate'', ''75pct'')])],
     severity_labels = [(''cpu_stress'', [(''mild'', ''50% CPU load''), (''moderate'', ''75% CPU load'')])],
     target_tiers = [(''rabbitmq'', \<lparr>t_label = ''RabbitMQ message broker'', t_selectors = sels\<rparr>)],
     severities = sevs,
     timing_table = [
       (''mild'', \<lparr>tm_duration = ''3m'', tm_warmup = ''30s'', tm_cooldown = ''30s''\<rparr>),
       (''moderate'', \<lparr>tm_duration = ''5m'', tm_warmup = ''60s'', tm_cooldown = ''60s''\<rparr>)],
     invariant_criteria = []\<rparr>"

definition rabbitmq_selector :: selector where
  "rabbitmq_selector = \<lparr>s_pattern = ''l2-cl-.*-rabbitmq'', s_alias = ''target_rabbitmq''\<rparr>"

section \<open>The scenario builder on the module's tables\<close>

text \<open>
  Claim C6. Assembling the combination (packet_loss, validator1_heimdall, moderate) succeeds.
  The name of the record is the prefix \<open>gen-packet-loss-\<close>, then the slug \<open>40pct\<close>, then
  \<open>validator1-heimdall\<close>; its fault list has exactly one entry, of type \<open>network\<close> and with
  parameters \<open>{packet_loss: 40, target_proto: "tcp,udp", device: "eth0"}\<close>; its duration is
  \<open>5m\<close>; and it has exactly three success criteria, each with window \<open>5m\<close>.
\<close>

theorem build_scenario_case_A:
  "\<exists>r. build_scenario module_tables ''packet_loss'' ''validator1_heimdall'' ''moderate'' = Inr r
     \<and> bind (getitem SEVERITY_SLUGS ''packet_loss'') (\<lambda>slugs. getitem slugs ''moderate'') = Inr ''40pct''
     \<and> md_name (metadata r) = ''gen-packet-loss-'' @ ''40pct'' @ ''-'' @ ''validator1-heimdall''
     \<and> length (sp_faults (spec r)) = 1
     \<and> map f_type (sp_faults (spec r)) = [''network'']
     \<and> map f_params (sp_faults (spec r)) =
           [[(''packet_loss'', PInt 40), (''target_proto'', PStr ''tcp,udp''), (''device'', PStr ''eth0'')]]
     \<and> sp_duration (spec r) = ''5m''
     \<and> length (sp_success_criteria (spec r)) = 3
     \<and> map c_window (sp_success_criteria (spec r)) = [''5m'', ''5m'', ''5m'']"
  by (simp add: build_scenario_def scenario_description_def build_fault_def build_target_def
      fault_def_items_def getitem_def module_tables_def FAULT_DEFINITIONS_def TARGET_TIERS_def
      TIMING_def SEVERITY_SLUGS_def SEVERITY_LABELS_def INVARIANT_CRITERIA_def sev3_def
      str_replace_def criterion.extend_def criterion_w.fields_def)

section \<open>Full enumeration\<close>

lemma itertools_product_eq: "itertools_product xss = product_lists xss"
  by (induction xss) simp_all

lemma itertools_product3:
  "itertools_product [a, b, c] = map (\<lambda>(x, y, z). [x, y, z]) (List.product a (List.product b c))"
  by (simp add: product_concat_map map_concat comp_def)

lemma mod_mult_div: "k mod (b * c) div c = k div c mod (b::nat)"
proof (cases "c = 0")
  case True
  then show ?thesis by simp
next
  case False
  have "k mod (c * b) = c * (k div c mod b) + k mod c" by (rule mod_mult2_eq)
  then have "k mod (c * b) div c = (c * (k div c mod b) + k mod c) div c" by simp
  also have "\<dots> = k div c mod b" using False by simp
  finally show ?thesis by (simp add: mult.commute)
qed

lemma mod_mult_mod: "k mod (b * c) mod c = k mod (c::nat)"
  by (simp add: mod_mod_cancel)

lemma itertools_product3_nth:
  assumes "k < length a * length b * length c"
  shows "itertools_product [a, b, c] ! k =
           [a ! (k div (length b * length c)), b ! (k div length c mod length b), c ! (k mod length c)]"
proof -
  let ?P = "List.product b c"
  have k: "k < length a * length ?P" using assms by (simp add: mult.assoc)
  have pos: "0 < length b * length c" using assms by (cases "length b * length c = 0") auto
  have k2: "k mod (length b * length c) < length b * length c" using pos by simp
  have "itertools_product [a, b, c] ! k = (\<lambda>(x, y, z). [x, y, z]) (List.product a ?P ! k)"
    unfolding itertools_product3 using k by simp
  also have "List.product a ?P ! k = (a ! (k div length ?P), ?P ! (k mod length ?P))"
    using k by (rule product_nth)
  also have "?P ! (k mod length ?P) =
      (b ! (k mod (length b * length c) div length c), c ! (k mod (length b * length c) mod length c))"
    using product_nth[OF k2] by simp
  finally show ?thesis
    by (simp add: mod_mult_div mod_mult_mod)
qed

lemma itertools_product3_set:
  "set (itertools_product [a, b, c]) = {[x, y, z] | x y z. x \<in> set a \<and> y \<in> set b \<and> z \<in> set c}"
  unfolding itertools_product3 by (auto simp: image_iff)

lemma itertools_product3_length:
  "length (itertools_product [a, b, c]) = length a * length b * length c"
  by (simp only: itertools_product3 length_map length_product mult.assoc)

lemma itertools_product_distinct:
  "\<forall>xs \<in> set xss. distinct xs \<Longrightarrow> distinct (itertools_product xss)"
  unfolding itertools_product_eq by (rule distinct_product_lists)

lemma keys_FAULT_DEFINITIONS:
  "keys FAULT_DEFINITIONS = [''packet_loss'', ''latency'', ''bandwidth_throttle'', ''packet_reorder'',
     ''connection_drop'', ''dns_latency'', ''container_restart'', ''container_pause'',
     ''cpu_stress'', ''memory_pressure'', ''disk_io'']"
  by (simp add: keys_def FAULT_DEFINITIONS_def)

lemma keys_TARGET_TIERS:
  "keys TARGET_TIERS = [''validator1_heimdall'', ''validator1_bor'', ''validator1_both'',
     ''all_heimdall'', ''all_bor'', ''all_both'', ''rabbitmq'', ''rpc_nodes'']"
  by (simp add: keys_def TARGET_TIERS_def)

lemma full_combinations_module:
  "full_combinations module_tables =
     itertools_product [keys FAULT_DEFINITIONS, keys TARGET_TIERS, SEVERITIES]"
  by (simp add: full_combinations_def module_tables_def)

lemma dimension_lengths:
  "length (keys FAULT_DEFINITIONS) = 11" "length (keys TARGET_TIERS) = 8" "length SEVERITIES = 3"
  by (simp_all add: keys_FAULT_DEFINITIONS keys_TARGET_TIERS SEVERITIES_def)

lemma dimensions_distinct:
  "distinct (keys FAULT_DEFINITIONS)" "distinct (keys TARGET_TIERS)" "distinct SEVERITIES"
  by (simp_all add: keys_FAULT_DEFINITIONS keys_TARGET_TIERS SEVERITIES_def)

text \<open>
  Claim C2. The full enumeration on the module's tables is exactly the Cartesian product of
  the three dimension value lists (11 fault types, 8 target tiers, 3 severities): it has
  \<open>11 * 8 * 3 = 264\<close> elements, no duplicates, and its \<open>k\<close>-th element takes the fault type at
  index \<open>k div 24\<close>, the target tier at index \<open>k div 3 mod 8\<close> and the severity at index
  \<open>k mod 3\<close>: severity changes on every step, target tier every 3 steps, fault type every
  24 steps.
\<close>

theorem full_combinations_cartesian:
  "set (full_combinations module_tables) =
     {[f, t, s] | f t s.
        f \<in> set (keys FAULT_DEFINITIONS) \<and> t \<in> set (keys TARGET_TIERS) \<and> s \<in> set SEVERITIES}
   \<and> length (keys FAULT_DEFINITIONS) = 11 \<and> length (keys TARGET_TIERS) = 8
   \<and> length SEVERITIES = 3
   \<and> length (full_combinations module_tables) = 11 * 8 * 3
   \<and> length (full_combinations module_tables) = 264
   \<and> distinct (full_combinations module_tables)
   \<and> (\<forall>k < 264. full_combinations module_tables ! k =
         [keys FAULT_DEFINITIONS ! (k div (8 * 3)),
          keys TARGET_TIERS ! (k div 3 mod 8),
          SEVERITIES ! (k mod 3)])"
proof -
  have len: "length (full_combinations module_tables) = 264"
    by (simp only: full_combinations_module itertools_product3_length dimension_lengths)
  have dist: "distinct (full_combinations module_tables)"
    unfolding full_combinations_module
    by (rule itertools_product_distinct) (simp add: dimensions_distinct)
  have nth: "full_combinations module_tables ! k =
         [keys FAULT_DEFINITIONS ! (k div (8 * 3)),
          keys TARGET_TIERS ! (k div 3 mod 8),
          SEVERITIES ! (k mod 3)]" if "k < 264" for k
  proof -
    have "k < length (keys FAULT_DEFINITIONS) * length (keys TARGET_TIERS) * length SEVERITIES"
      using that by (simp add: dimension_lengths)
    then show ?thesis
      unfolding full_combinations_module
      by (simp only: itertools_product3_nth dimension_lengths)
  qed
  have elems: "set (full_combinations module_tables) =
     {[f, t, s] | f t s.
        f \<in> set (keys FAULT_DEFINITIONS) \<and> t \<in> set (keys TARGET_TIERS) \<and> s \<in> set SEVERITIES}"
    unfolding full_combinations_module by (rule itertools_product3_set)
  show ?thesis
    using len dist nth elems by (simp only: dimension_lengths) simp
qed

theorem full_combinations_cartesian_witness:
  "full_combinations module_tables ! 25 = [''latency'', ''validator1_heimdall'', ''moderate'']"
proof -
  have "(25::nat) < 264" by simp
  with full_combinations_cartesian
  have "full_combinations module_tables ! 25 =
         [keys FAULT_DEFINITIONS ! (25 div (8 * 3)),
          keys TARGET_TIERS ! (25 div 3 mod 8),
          SEVERITIES ! (25 mod 3)]" by blast
  then show ?thesis
    by (simp add: keys_FAULT_DEFINITIONS keys_TARGET_TIERS SEVERITIES_def)
qed

section \<open>The greedy pairwise reduction\<close>

lemma find_best_snoc:
  "find_best n covered (xs @ [x]) = scan n covered x (find_best n covered xs)"
  by (simp add: find_best_def)

lemma find_best_first_max:
  assumes "all_combos \<noteq> []"
  shows "\<exists>c. find_best n covered all_combos = (Some c, count_new n covered c)
           \<and> is_first_best n covered all_combos c"
  using assms
proof (induction all_combos rule: rev_induct)
  case Nil
  then show ?case by simp
next
  case (snoc x xs)
  show ?case
  proof (cases "xs = []")
    case True
    have "find_best n covered [x] = (Some x, count_new n covered x)"
      using count_new_nonneg[of n covered x] by (simp add: find_best_def scan_def Let_def)
    moreover have "is_first_best n covered [x] x"
      by (simp add: is_first_best_def)
    ultimately show ?thesis using True by auto
  next
    case False
    with snoc.IH obtain c i where
      fb: "find_best n covered xs = (Some c, count_new n covered c)" and
      i: "i < length xs" "xs ! i = c" and
      mx: "\<forall>j < length xs. count_new n covered (xs ! j) \<le> count_new n covered c" and
      fst: "\<forall>j < i. count_new n covered (xs ! j) < count_new n covered c"
      unfolding is_first_best_def by blast
    show ?thesis
    proof (cases "count_new n covered x > count_new n covered c")
      case True
      have "find_best n covered (xs @ [x]) = (Some x, count_new n covered x)"
        using True fb by (simp add: find_best_snoc scan_def Let_def)
      moreover have "is_first_best n covered (xs @ [x]) x"
        unfolding is_first_best_def
      proof (intro exI[of _ "length xs"] conjI allI impI)
        fix j assume "j < length (xs @ [x])"
        then show "count_new n covered ((xs @ [x]) ! j) \<le> count_new n covered x"
          using mx True by (cases "j < length xs") (auto simp: nth_append less_Suc_eq dest!: spec[of _ j])
      next
        fix j assume "j < length xs"
        then show "count_new n covered ((xs @ [x]) ! j) < count_new n covered x"
          using mx True by (auto simp: nth_append dest!: spec[of _ j])
      qed simp_all
      ultimately show ?thesis by blast
    next
      case notgt: False
      have "find_best n covered (xs @ [x]) = (Some c, count_new n covered c)"
        using notgt fb by (simp add: find_best_snoc scan_def Let_def)
      moreover have "is_first_best n covered (xs @ [x]) c"
        unfolding is_first_best_def
      proof (intro exI[of _ i] conjI allI impI)
        show "i < length (xs @ [x])" using i by simp
        show "(xs @ [x]) ! i = c" using i by (simp add: nth_append)
      next
        fix j assume "j < length (xs @ [x])"
        then show "count_new n covered ((xs @ [x]) ! j) \<le> count_new n covered c"
          using mx notgt by (cases "j < length xs") (auto simp: nth_append less_Suc_eq dest!: spec[of _ j])
      next
        fix j assume "j < i"
        then show "count_new n covered ((xs @ [x]) ! j) < count_new n covered c"
          using fst i by (auto simp: nth_append)
      qed
      ultimately show ?thesis by blast
    qed
  qed
qed

lemma find_best_Nil: "find_best n covered [] = (None, - 1)"
  by (simp add: find_best_def)

lemma find_best_None: "find_best n covered all_combos = (None, k) \<Longrightarrow> all_combos = []"
  using find_best_first_max[of all_combos n covered] by (cases "all_combos = []") auto

lemma find_best_Some:
  assumes "find_best n covered all_combos = (Some c, k)"
  shows "k = count_new n covered c \<and> is_first_best n covered all_combos c"
proof -
  have "all_combos \<noteq> []" using assms by (auto simp: find_best_Nil)
  from find_best_first_max[OF this, of n covered] assms show ?thesis by auto
qed

lemma is_first_best_mem: "is_first_best n covered all_combos c \<Longrightarrow> c \<in> set all_combos"
  by (auto simp: is_first_best_def)

lemma is_first_best_max:
  "is_first_best n covered all_combos c \<Longrightarrow> x \<in> set all_combos
     \<Longrightarrow> count_new n covered x \<le> count_new n covered c"
  by (auto simp: is_first_best_def in_set_conv_nth)

text \<open>
  A rule for the loop: an invariant \<open>I\<close> of the pair (covered, selected) that every round
  keeps holds for the state in which the loop stops.
\<close>

lemma covered_by_Nil: "covered_by n [] = {||}"
  by (simp add: covered_by_def)

lemma covered_by_snoc:
  "covered_by n (selected @ [c]) = mark_covered n c (covered_by n selected)"
  by (simp add: covered_by_def mark_covered_def)

lemma covered_by_iff:
  "r |\<in>| covered_by n selected \<longleftrightarrow> (\<exists>c \<in> set selected. r \<in> set (projections n c))"
  by (auto simp: covered_by_def fset_of_list.rep_eq)

lemma count_new_zero_iff:
  "count_new n covered c = 0 \<longleftrightarrow> (\<forall>r \<in> set (projections n c). r |\<in>| covered)"
  by (auto simp: count_new_def filter_empty_conv)

lemma best_not_selected:
  assumes "find_best n (covered_by n selected) all_combos = (Some bc, k)" and "k \<noteq> 0"
  shows "bc \<notin> set selected"
proof
  assume "bc \<in> set selected"
  then have "\<forall>r \<in> set (projections n bc). r |\<in>| covered_by n selected"
    by (auto simp: covered_by_iff)
  then have "count_new n (covered_by n selected) bc = 0" by (simp add: count_new_zero_iff)
  with find_best_count[OF assms(1)] assms(2) show False by simp
qed

lemma pairwise_loop_rule:
  assumes init: "I covered selected"
    and step: "\<And>cov sel bc k. I cov sel \<Longrightarrow> cov |\<subset>| required
                 \<Longrightarrow> find_best n cov all_combos = (Some bc, k) \<Longrightarrow> k \<noteq> 0
                 \<Longrightarrow> I (mark_covered n bc cov) (sel @ [bc])"
    and final: "\<And>cov sel. I cov sel
                 \<Longrightarrow> \<not> cov |\<subset>| required \<or> (\<exists>k. find_best n cov all_combos = (None, k))
                    \<or> (\<exists>bc. find_best n cov all_combos = (Some bc, 0))
                 \<Longrightarrow> Q sel"
  shows "Q (pairwise_loop all_combos n required covered selected)"
  using assms
proof (induction all_combos n required covered selected rule: pairwise_loop.induct)
  case (1 all_combos n required covered selected)
  note init = "1.prems"(1) and step = "1.prems"(2) and final = "1.prems"(3)
  show ?case
  proof (cases "covered |\<subset>| required")
    case False
    then have "pairwise_loop all_combos n required covered selected = selected"
      by (subst pairwise_loop.simps) simp
    moreover have "Q selected" using final[OF init] False by blast
    ultimately show ?thesis by simp
  next
    case True
    obtain b k where fb: "find_best n covered all_combos = (b, k)"
      by (cases "find_best n covered all_combos")
    show ?thesis
    proof (cases b)
      case None
      then have "pairwise_loop all_combos n required covered selected = selected"
        using True fb by (subst pairwise_loop.simps) simp
      moreover have "Q selected" using final[OF init] fb None by blast
      ultimately show ?thesis by simp
    next
      case (Some bc)
      show ?thesis
      proof (cases "k = 0")
        case True
        then have "pairwise_loop all_combos n required covered selected = selected"
          using \<open>covered |\<subset>| required\<close> fb Some by (subst pairwise_loop.simps) simp
        moreover have "Q selected" using final[OF init] fb Some True by blast
        ultimately show ?thesis by simp
      next
        case False
        have eq: "pairwise_loop all_combos n required covered selected =
              pairwise_loop all_combos n required (mark_covered n bc covered) (selected @ [bc])"
          using True fb Some False by (subst pairwise_loop.simps) simp
        have "I (mark_covered n bc covered) (selected @ [bc])"
          using step[OF init True _ False] fb Some by simp
        then have "Q (pairwise_loop all_combos n required (mark_covered n bc covered) (selected @ [bc]))"
          by (rule "1.IH"[OF True fb[symmetric] Some False _ step final])
        with eq show ?thesis by simp
      qed
    qed
  qed
qed

lemma pairwise_loop_subset:
  assumes "set selected \<subseteq> set all_combos"
  shows "set (pairwise_loop all_combos n required covered selected) \<subseteq> set all_combos"
proof (rule pairwise_loop_rule[where I = "\<lambda>cov sel. set sel \<subseteq> set all_combos"])
  show "set selected \<subseteq> set all_combos" by fact
next
  fix cov sel bc k
  assume "set sel \<subseteq> set all_combos" "find_best n cov all_combos = (Some bc, k)"
  then show "set (sel @ [bc]) \<subseteq> set all_combos"
    using is_first_best_mem[of n cov all_combos bc] find_best_Some[of n cov all_combos bc k] by simp
qed

lemma pairwise_loop_distinct:
  assumes "covered = covered_by n selected" and "distinct selected"
  shows "distinct (pairwise_loop all_combos n required covered selected)"
proof (rule pairwise_loop_rule[where I = "\<lambda>cov sel. cov = covered_by n sel \<and> distinct sel"])
  show "covered = covered_by n selected \<and> distinct selected" using assms by simp
next
  fix cov sel bc k
  assume "cov = covered_by n sel \<and> distinct sel"
    "find_best n cov all_combos = (Some bc, k)" "k \<noteq> 0"
  then show "mark_covered n bc cov = covered_by n (sel @ [bc]) \<and> distinct (sel @ [bc])"
    using best_not_selected[of n sel all_combos bc k] by (simp add: covered_by_snoc)
qed simp

lemma pairwise_loop_rounds:
  assumes "covered = covered_by n selected"
    and "\<forall>r < length selected. is_first_best n (covered_by n (take r selected)) all_combos (selected ! r)"
  shows "\<forall>r < length (pairwise_loop all_combos n required covered selected).
           is_first_best n (covered_by n (take r (pairwise_loop all_combos n required covered selected)))
             all_combos (pairwise_loop all_combos n required covered selected ! r)"
proof (rule pairwise_loop_rule[where I = "\<lambda>cov sel. cov = covered_by n sel
         \<and> (\<forall>r < length sel. is_first_best n (covered_by n (take r sel)) all_combos (sel ! r))"
       and Q = "\<lambda>sel. \<forall>r < length sel. is_first_best n (covered_by n (take r sel)) all_combos (sel ! r)"])
  show "covered = covered_by n selected
         \<and> (\<forall>r < length selected. is_first_best n (covered_by n (take r selected)) all_combos (selected ! r))"
    using assms by simp
next
  fix cov sel bc k
  assume inv: "cov = covered_by n sel
         \<and> (\<forall>r < length sel. is_first_best n (covered_by n (take r sel)) all_combos (sel ! r))"
    and fb: "find_best n cov all_combos = (Some bc, k)"
  have best: "is_first_best n (covered_by n sel) all_combos bc"
    using find_best_Some[OF fb] inv by simp
  have "is_first_best n (covered_by n (take r (sel @ [bc]))) all_combos ((sel @ [bc]) ! r)"
    if "r < length (sel @ [bc])" for r
  proof (cases "r < length sel")
    case True
    then show ?thesis using inv by (simp add: nth_append)
  next
    case False
    with that have "r = length sel" by simp
    then show ?thesis using best by simp
  qed
  then show "mark_covered n bc cov = covered_by n (sel @ [bc])
         \<and> (\<forall>r < length (sel @ [bc]).
               is_first_best n (covered_by n (take r (sel @ [bc]))) all_combos ((sel @ [bc]) ! r))"
    using inv by (simp add: covered_by_snoc)
qed simp

lemma pairwise_loop_covers:
  assumes inv: "covered = covered_by n selected" "covered |\<subseteq>| required"
    and sound: "\<forall>c \<in> set all_combos. \<forall>r \<in> set (projections n c). r |\<in>| required"
    and complete: "\<forall>r. r |\<in>| required \<longrightarrow> (\<exists>c \<in> set all_combos. r \<in> set (projections n c))"
  shows "required |\<subseteq>| covered_by n (pairwise_loop all_combos n required covered selected)"
proof (rule pairwise_loop_rule[where I = "\<lambda>cov sel. cov = covered_by n sel \<and> cov |\<subseteq>| required"])
  show "covered = covered_by n selected \<and> covered |\<subseteq>| required" using inv by simp
next
  fix cov sel bc k
  assume I: "cov = covered_by n sel \<and> cov |\<subseteq>| required"
    and fb: "find_best n cov all_combos = (Some bc, k)"
  have "bc \<in> set all_combos" using find_best_Some[OF fb] is_first_best_mem[of n cov all_combos bc] by simp
  with sound have "fset_of_list (projections n bc) |\<subseteq>| required"
    by (auto simp: fset_of_list.rep_eq)
  then show "mark_covered n bc cov = covered_by n (sel @ [bc]) \<and> mark_covered n bc cov |\<subseteq>| required"
    using I by (auto simp: covered_by_snoc mark_covered_def)
next
  fix cov sel
  assume I: "cov = covered_by n sel \<and> cov |\<subseteq>| required"
    and stop: "\<not> cov |\<subset>| required \<or> (\<exists>k. find_best n cov all_combos = (None, k))
                    \<or> (\<exists>bc. find_best n cov all_combos = (Some bc, 0))"
  have "required |\<subseteq>| cov"
  proof (rule ccontr)
    assume neg: "\<not> required |\<subseteq>| cov"
    then obtain r where r: "r |\<in>| required" "r |\<notin>| cov" by auto
    with complete obtain c where c: "c \<in> set all_combos" "r \<in> set (projections n c)" by blast
    have pos: "count_new n cov c \<noteq> 0" using c(2) r(2) by (auto simp: count_new_zero_iff)
    from neg I have "cov |\<subset>| required" by auto
    with stop consider k where "find_best n cov all_combos = (None, k)"
      | bc where "find_best n cov all_combos = (Some bc, 0)" by blast
    then show False
    proof cases
      case 1
      then have "all_combos = []" by (rule find_best_None)
      with c(1) show False by simp
    next
      case 2
      from find_best_Some[OF 2] have "count_new n cov bc = 0" "is_first_best n cov all_combos bc"
        by simp_all
      with is_first_best_max[OF _ c(1)] have "count_new n cov c \<le> 0" by metis
      with count_new_nonneg[of n cov c] pos show False by simp
    qed
  qed
  with I show "required |\<subseteq>| covered_by n sel" by simp
qed

text \<open>The loop on the Cartesian product of a list of dimensions.\<close>

lemma set_index_pairs: "set (index_pairs n) = {(i, j). i < j \<and> j < n}"
proof -
  have "(a, b) \<in> set (index_pairs n)" if "a < b" "b < n" for a b
  proof -
    have "a \<in> set [0..<n]" "(a, b) \<in> set (map (\<lambda>j. (a, j)) [a + 1..<n])"
      using that by auto
    then show ?thesis unfolding index_pairs_def by (auto simp del: upt_Suc)
  qed
  moreover have "a < b \<and> b < n" if "(a, b) \<in> set (index_pairs n)" for a b
    using that by (auto simp: index_pairs_def)
  ultimately show ?thesis by auto
qed

lemma projections_iff:
  "r \<in> set (projections n c) \<longleftrightarrow> (\<exists>i j. i < j \<and> j < n \<and> r = (i, c ! i, j, c ! j))"
  by (auto simp: projections_def set_index_pairs image_iff)

lemma required_pairs_iff:
  "r |\<in>| required_pairs dims \<longleftrightarrow>
     (\<exists>i j vi vj. r = (i, vi, j, vj) \<and> i < j \<and> j < length dims
        \<and> vi \<in> set (dims ! i) \<and> vj \<in> set (dims ! j))"
  by (auto simp: required_pairs_def fset_of_list.rep_eq set_index_pairs)

lemma itertools_product_nth_mem:
  assumes "c \<in> set (itertools_product dims)"
  shows "length c = length dims \<and> (\<forall>k < length dims. c ! k \<in> set (dims ! k))"
  using assms unfolding itertools_product_eq product_lists_set
  by (auto simp: list_all2_conv_all_nth)

lemma itertools_product_has_pair:
  assumes ne: "\<forall>d \<in> set dims. d \<noteq> []"
    and ij: "i < j" "j < length dims"
    and v: "vi \<in> set (dims ! i)" "vj \<in> set (dims ! j)"
  shows "\<exists>c \<in> set (itertools_product dims). c ! i = vi \<and> c ! j = vj"
proof -
  let ?c = "(map hd dims)[i := vi, j := vj]"
  have len: "length ?c = length dims" by simp
  have "?c ! k \<in> set (dims ! k)" if "k < length dims" for k
  proof -
    have "dims ! k \<noteq> []" using ne that by simp
    then have "hd (dims ! k) \<in> set (dims ! k)" by simp
    then show ?thesis using that v ij by (auto simp: nth_list_update)
  qed
  with len have "?c \<in> set (itertools_product dims)"
    unfolding itertools_product_eq product_lists_set by (simp add: list_all2_conv_all_nth)
  moreover have "?c ! i = vi" "?c ! j = vj" using ij by (simp_all add: nth_list_update)
  ultimately show ?thesis by blast
qed

lemma product_projections_required:
  assumes "c \<in> set (itertools_product dims)" and "r \<in> set (projections (length dims) c)"
  shows "r |\<in>| required_pairs dims"
proof -
  from assms(2) obtain i j where ij: "i < j" "j < length dims" "r = (i, c ! i, j, c ! j)"
    unfolding projections_iff by blast
  with itertools_product_nth_mem[OF assms(1)] have "c ! i \<in> set (dims ! i)" "c ! j \<in> set (dims ! j)"
    by simp_all
  with ij show ?thesis unfolding required_pairs_iff by blast
qed

lemma required_has_combination:
  assumes "\<forall>d \<in> set dims. d \<noteq> []" and "r |\<in>| required_pairs dims"
  shows "\<exists>c \<in> set (itertools_product dims). r \<in> set (projections (length dims) c)"
proof -
  from assms(2) obtain i j vi vj where r: "r = (i, vi, j, vj)" "i < j" "j < length dims"
      "vi \<in> set (dims ! i)" "vj \<in> set (dims ! j)"
    unfolding required_pairs_iff by blast
  from itertools_product_has_pair[OF assms(1) r(2-5)]
  obtain c where "c \<in> set (itertools_product dims)" "c ! i = vi" "c ! j = vj" by blast
  with r show ?thesis unfolding projections_iff by blast
qed

lemma builtin_greedy_covers:
  assumes "\<forall>d \<in> set dims. d \<noteq> []"
  shows "required_pairs dims |\<subseteq>| covered_by (length dims) (builtin_greedy dims)"
  unfolding builtin_greedy_def Let_def
proof (rule pairwise_loop_covers)
  show "{||} = covered_by (length dims) []" by (simp add: covered_by_Nil)
  show "{||} |\<subseteq>| required_pairs dims" by simp
  show "\<forall>c \<in> set (itertools_product dims). \<forall>r \<in> set (projections (length dims) c).
          r |\<in>| required_pairs dims"
    using product_projections_required by blast
  show "\<forall>r. r |\<in>| required_pairs dims \<longrightarrow>
          (\<exists>c \<in> set (itertools_product dims). r \<in> set (projections (length dims) c))"
    using required_has_combination[OF assms] by blast
qed

lemma builtin_greedy_pair_covered:
  assumes "\<forall>d \<in> set dims. d \<noteq> []" and "i < j" "j < length dims"
    and "vi \<in> set (dims ! i)" "vj \<in> set (dims ! j)"
  shows "\<exists>c \<in> set (builtin_greedy dims). c ! i = vi \<and> c ! j = vj"
proof -
  have "(i, vi, j, vj) |\<in>| required_pairs dims"
    unfolding required_pairs_iff using assms(2-5) by blast
  with builtin_greedy_covers[OF assms(1)] have "(i, vi, j, vj) |\<in>| covered_by (length dims) (builtin_greedy dims)"
    by auto
  then show ?thesis unfolding covered_by_iff projections_iff by auto
qed

lemma builtin_greedy_subset: "set (builtin_greedy dims) \<subseteq> set (itertools_product dims)"
  unfolding builtin_greedy_def Let_def by (rule pairwise_loop_subset) simp

lemma builtin_greedy_distinct: "distinct (builtin_greedy dims)"
  unfolding builtin_greedy_def Let_def by (rule pairwise_loop_distinct) (simp_all add: covered_by_Nil)

lemma builtin_greedy_rounds:
  "\<forall>r < length (builtin_greedy dims).
     is_first_best (length dims) (covered_by (length dims) (take r (builtin_greedy dims)))
       (itertools_product dims) (builtin_greedy dims ! r)"
  unfolding builtin_greedy_def Let_def by (rule pairwise_loop_rounds) (simp_all add: covered_by_Nil)

lemma builtin_greedy_length_upper:
  assumes "\<forall>d \<in> set dims. distinct d"
  shows "length (builtin_greedy dims) \<le> length (itertools_product dims)"
proof -
  have "length (builtin_greedy dims) = card (set (builtin_greedy dims))"
    using builtin_greedy_distinct by (simp add: distinct_card)
  also have "\<dots> \<le> card (set (itertools_product dims))"
    by (rule card_mono) (simp_all add: builtin_greedy_subset)
  also have "\<dots> \<le> length (itertools_product dims)" by (rule card_length)
  finally show ?thesis .
qed

lemma builtin_greedy_length_lower:
  assumes ne: "\<forall>d \<in> set dims. d \<noteq> []" and ij: "i < j" "j < length dims"
    and dist: "distinct (dims ! i)" "distinct (dims ! j)"
  shows "length (dims ! i) * length (dims ! j) \<le> length (builtin_greedy dims)"
proof -
  have sub: "set (dims ! i) \<times> set (dims ! j) \<subseteq> (\<lambda>c. (c ! i, c ! j)) ` set (builtin_greedy dims)"
  proof
    fix p assume "p \<in> set (dims ! i) \<times> set (dims ! j)"
    then obtain vi vj where p: "p = (vi, vj)" "vi \<in> set (dims ! i)" "vj \<in> set (dims ! j)" by auto
    from builtin_greedy_pair_covered[OF ne ij p(2,3)] p(1)
    show "p \<in> (\<lambda>c. (c ! i, c ! j)) ` set (builtin_greedy dims)" by (auto simp: image_iff)
  qed
  have "length (dims ! i) * length (dims ! j) = card (set (dims ! i) \<times> set (dims ! j))"
    using dist by (simp add: card_cartesian_product distinct_card)
  also have "\<dots> \<le> card ((\<lambda>c. (c ! i, c ! j)) ` set (builtin_greedy dims))"
    by (rule card_mono) (simp_all add: sub)
  also have "\<dots> \<le> card (set (builtin_greedy dims))" by (rule card_image_le) simp
  also have "\<dots> \<le> length (builtin_greedy dims)" by (rule card_length)
  finally show ?thesis .
qed

section \<open>The pairwise strategy on the module's tables\<close>

lemma dimensions_module:
  "dimensions module_tables = [keys FAULT_DEFINITIONS, keys TARGET_TIERS, SEVERITIES]"
  by (simp add: dimensions_def module_tables_def)

lemma dimensions_module_nth:
  "dimensions module_tables ! 0 = keys FAULT_DEFINITIONS"
  "dimensions module_tables ! Suc 0 = keys TARGET_TIERS"
  "dimensions module_tables ! 2 = SEVERITIES"
  by (simp_all add: dimensions_module numeral_2_eq_2)

lemma dimensions_module_nonempty: "\<forall>d \<in> set (dimensions module_tables). d \<noteq> []"
  using dimension_lengths by (auto simp: dimensions_module)

lemma dimensions_module_distinct: "\<forall>d \<in> set (dimensions module_tables). distinct d"
  using dimensions_distinct by (auto simp: dimensions_module)

lemma pairwise_builtin:
  "pairwise_combinations module_tables None = builtin_greedy (dimensions module_tables)"
  by (simp add: pairwise_combinations_def)

lemma full_combinations_dimensions:
  "full_combinations T = itertools_product (dimensions T)"
  by (simp add: full_combinations_def dimensions_def)

lemma is_first_best_unique:
  assumes "is_first_best n covered all_combos c" and "is_first_best n covered all_combos c'"
  shows "c = c'"
proof -
  from assms(1) obtain i where i: "i < length all_combos" "all_combos ! i = c"
    "\<forall>j < length all_combos. count_new n covered (all_combos ! j) \<le> count_new n covered c"
    "\<forall>j < i. count_new n covered (all_combos ! j) < count_new n covered c"
    unfolding is_first_best_def by blast
  from assms(2) obtain i' where i': "i' < length all_combos" "all_combos ! i' = c'"
    "\<forall>j < length all_combos. count_new n covered (all_combos ! j) \<le> count_new n covered c'"
    "\<forall>j < i'. count_new n covered (all_combos ! j) < count_new n covered c'"
    unfolding is_first_best_def by blast
  have "\<not> i < i'"
  proof
    assume "i < i'"
    with i'(4) i(2) have "count_new n covered c < count_new n covered c'" by auto
    moreover from i(3) i'(1,2) have "count_new n covered c' \<le> count_new n covered c" by auto
    ultimately show False by simp
  qed
  moreover have "\<not> i' < i"
  proof
    assume "i' < i"
    with i(4) i'(2) have "count_new n covered c' < count_new n covered c" by auto
    moreover from i'(3) i(1,2) have "count_new n covered c \<le> count_new n covered c'" by auto
    ultimately show False by simp
  qed
  ultimately have "i = i'" by simp
  with i(2) i'(2) show ?thesis by simp
qed

lemma pairwise_length_lower: "88 \<le> length (pairwise_combinations module_tables None)"
proof -
  have "length (dimensions module_tables ! 0) * length (dimensions module_tables ! Suc 0)
          \<le> length (builtin_greedy (dimensions module_tables))"
    by (rule builtin_greedy_length_lower)
       (simp_all add: dimensions_module_nonempty dimensions_module dimensions_distinct)
  then show ?thesis
    by (simp add: pairwise_builtin dimensions_module dimension_lengths)
qed

text \<open>
  Claim C1. On the module's tables the built-in greedy algorithm (the pairwise strategy when
  the external library is absent) achieves complete 2-way coverage: for any two distinct
  dimensions \<open>i\<close> and \<open>j\<close> among fault type (0), target tier (1) and severity (2), and any
  values \<open>v\<close> of dimension \<open>i\<close> and \<open>w\<close> of dimension \<open>j\<close>, some combination of the returned
  list has \<open>v\<close> in dimension \<open>i\<close> and \<open>w\<close> in dimension \<open>j\<close>.
\<close>

theorem pairwise_complete_coverage:
  "\<forall>i j. i < 3 \<and> j < 3 \<and> i \<noteq> j \<longrightarrow>
     (\<forall>v \<in> set (dimensions module_tables ! i). \<forall>w \<in> set (dimensions module_tables ! j).
        \<exists>c \<in> set (pairwise_combinations module_tables None). c ! i = v \<and> c ! j = w)"
proof (intro allI impI ballI)
  fix i j :: nat and v w
  assume ij: "i < 3 \<and> j < 3 \<and> i \<noteq> j"
    and v: "v \<in> set (dimensions module_tables ! i)"
    and w: "w \<in> set (dimensions module_tables ! j)"
  have len: "length (dimensions module_tables) = 3" by (simp add: dimensions_module)
  show "\<exists>c \<in> set (pairwise_combinations module_tables None). c ! i = v \<and> c ! j = w"
  proof (cases "i < j")
    case True
    with ij have "j < length (dimensions module_tables)" by (simp add: len)
    from builtin_greedy_pair_covered[OF dimensions_module_nonempty True this v w]
    show ?thesis by (simp add: pairwise_builtin)
  next
    case False
    with ij have ji: "j < i" "i < length (dimensions module_tables)" by (simp_all add: len)
    from builtin_greedy_pair_covered[OF dimensions_module_nonempty ji w v]
    show ?thesis by (auto simp: pairwise_builtin)
  qed
qed

theorem pairwise_complete_coverage_witness:
  "\<exists>c \<in> set (pairwise_combinations module_tables None). c ! 0 = ''disk_io'' \<and> c ! 2 = ''severe''"
proof -
  have "''disk_io'' \<in> set (dimensions module_tables ! 0)"
    by (simp add: dimensions_module keys_FAULT_DEFINITIONS)
  moreover have "''severe'' \<in> set (dimensions module_tables ! 2)"
    by (simp add: dimensions_module SEVERITIES_def)
  moreover have "(0::nat) < 3 \<and> (2::nat) < 3 \<and> (0::nat) \<noteq> 2" by simp
  ultimately show ?thesis using pairwise_complete_coverage by blast
qed

text \<open>
  Claim C3. In every round \<open>r\<close> of the greedy algorithm on the module's tables, the
  combination appended (the \<open>r\<close>-th element of the result) is the first one, in
  full-enumeration order, among the combinations of the full domain that cover the largest
  number of requirements not covered by the combinations selected before it. That
  combination is unique, so the rule determines the whole list: the result is the same
  list in the same order on every run (the model is a function of the tables).
\<close>

theorem pairwise_round_choice:
  "\<forall>r < length (pairwise_combinations module_tables None).
     is_first_best 3 (covered_by 3 (take r (pairwise_combinations module_tables None)))
       (full_combinations module_tables) (pairwise_combinations module_tables None ! r)
     \<and> (\<forall>c. is_first_best 3 (covered_by 3 (take r (pairwise_combinations module_tables None)))
              (full_combinations module_tables) c
            \<longrightarrow> c = pairwise_combinations module_tables None ! r)"
proof (intro allI impI conjI)
  fix r assume r: "r < length (pairwise_combinations module_tables None)"
  have len: "length (dimensions module_tables) = 3" by (simp add: dimensions_module)
  from builtin_greedy_rounds[of "dimensions module_tables"] r
  show best: "is_first_best 3 (covered_by 3 (take r (pairwise_combinations module_tables None)))
       (full_combinations module_tables) (pairwise_combinations module_tables None ! r)"
    by (simp add: pairwise_builtin full_combinations_dimensions len)
  fix c assume "is_first_best 3 (covered_by 3 (take r (pairwise_combinations module_tables None)))
              (full_combinations module_tables) c"
  then show "c = pairwise_combinations module_tables None ! r"
    using best by (rule is_first_best_unique)
qed

theorem pairwise_round_choice_witness:
  "is_first_best 3 {||} (full_combinations module_tables)
     (pairwise_combinations module_tables None ! 0)"
proof -
  have "0 < length (pairwise_combinations module_tables None)"
    using pairwise_length_lower by linarith
  with pairwise_round_choice
  have "is_first_best 3 (covered_by 3 (take 0 (pairwise_combinations module_tables None)))
       (full_combinations module_tables) (pairwise_combinations module_tables None ! 0)"
    by blast
  then show ?thesis by (simp add: covered_by_Nil)
qed

text \<open>
  Claim C5. The pairwise result on the module's tables is at most as long as the full
  enumeration (264) and at least as long as the largest product of two dimension sizes,
  \<open>max (11 * 8) (max (11 * 3) (8 * 3)) = 88\<close>.
\<close>

theorem pairwise_length_bounds:
  "length (pairwise_combinations module_tables None) \<le> length (full_combinations module_tables)
   \<and> length (full_combinations module_tables) = 264
   \<and> max (length (keys FAULT_DEFINITIONS) * length (keys TARGET_TIERS))
         (max (length (keys FAULT_DEFINITIONS) * length SEVERITIES)
              (length (keys TARGET_TIERS) * length SEVERITIES))
       \<le> length (pairwise_combinations module_tables None)
   \<and> max (length (keys FAULT_DEFINITIONS) * length (keys TARGET_TIERS))
         (max (length (keys FAULT_DEFINITIONS) * length SEVERITIES)
              (length (keys TARGET_TIERS) * length SEVERITIES)) = 88"
proof -
  have up: "length (pairwise_combinations module_tables None) \<le> length (full_combinations module_tables)"
    unfolding pairwise_builtin full_combinations_dimensions
    by (rule builtin_greedy_length_upper) (rule dimensions_module_distinct)
  have full: "length (full_combinations module_tables) = 264"
    by (simp only: full_combinations_module itertools_product3_length dimension_lengths)
  show ?thesis using up full pairwise_length_lower by (simp add: dimension_lengths)
qed

text \<open>
  Claim C9. Every combination returned by the greedy pairwise algorithm on the module's
  tables is an element of the full Cartesian product, and no combination occurs twice.
\<close>

theorem pairwise_members_distinct:
  "set (pairwise_combinations module_tables None) \<subseteq> set (full_combinations module_tables)
   \<and> distinct (pairwise_combinations module_tables None)"
  unfolding pairwise_builtin full_combinations_dimensions
  using builtin_greedy_subset builtin_greedy_distinct by blast

section \<open>Lookups of the scenario builder and the preview listing\<close>

lemma getitem_notin: "k \<notin> set (keys d) \<Longrightarrow> getitem d k = Inl (KeyError k)"
  by (simp add: getitem_def keys_def map_of_eq_None_iff[THEN iffD2])

lemma getitem_in: "k \<in> set (keys d) \<Longrightarrow> \<exists>v. getitem d k = Inr v"
proof -
  assume "k \<in> set (keys d)"
  then have "map_of d k \<noteq> None" by (simp add: keys_def map_of_eq_None_iff)
  then show ?thesis by (auto simp: getitem_def)
qed

lemma comprehension_map:
  "(\<And>x. x \<in> set xs \<Longrightarrow> f x = Inr (g x)) \<Longrightarrow> comprehension f xs = Inr (map g xs)"
  by (induction xs) simp_all

lemma build_scenario_ok:
  assumes "getitem (fault_definitions T) ft = Inr fd"
    and "getitem (target_tiers T) tt = Inr tier"
    and "getitem (timing_table T) sv = Inr tm"
    and "fault_def_items fd sv = Inr params"
    and "getitem (severity_labels T) ft = Inr labels"
    and "getitem labels sv = Inr label"
    and "getitem (severity_slugs T) ft = Inr slugs"
    and "getitem slugs sv = Inr slug"
  shows "\<exists>r. build_scenario T ft tt sv = Inr r
           \<and> md_name (metadata r) =
               ''gen'' @ ''-'' @ str_replace CHR ''_'' CHR ''-'' ft @ ''-'' @ slug @ ''-''
                 @ str_replace CHR ''_'' CHR ''-'' tt
           \<and> sp_targets (spec r) = map build_target (t_selectors tier)
           \<and> length (sp_faults (spec r)) = length (t_selectors tier)"
proof -
  let ?g = "\<lambda>s. \<lparr>f_phase = str_replace CHR ''_'' CHR ''-'' ft @ ''-'' @ s_alias s,
            f_description = label @ '' applied to '' @ s_alias s,
            f_target = s_alias s,
            f_type = fd_type fd,
            f_params = params\<rparr>"
  have c: "comprehension (build_fault T ft sv fd params) (t_selectors tier) = Inr (map ?g (t_selectors tier))"
    by (rule comprehension_map) (simp add: build_fault_def assms)
  show ?thesis
    by (simp add: build_scenario_def scenario_description_def assms c Let_def)
qed

lemma tables_complete_module: "tables_complete module_tables"
proof -
  have "list_all (\<lambda>(ft, fd). list_all (\<lambda>sv. sv \<in> set (keys (fd_severities fd))) SEVERITIES)
          FAULT_DEFINITIONS"
    by (simp add: FAULT_DEFINITIONS_def SEVERITIES_def keys_def)
  moreover have "list_all (\<lambda>ft. ft \<in> set (keys SEVERITY_SLUGS) \<and> ft \<in> set (keys SEVERITY_LABELS))
          (keys FAULT_DEFINITIONS)"
    by (simp add: keys_FAULT_DEFINITIONS) (simp add: keys_def SEVERITY_SLUGS_def SEVERITY_LABELS_def)
  moreover have "list_all (\<lambda>(ft, m). list_all (\<lambda>sv. sv \<in> set (keys m)) SEVERITIES) SEVERITY_SLUGS"
    by (simp add: SEVERITY_SLUGS_def SEVERITIES_def keys_def sev3_def)
  moreover have "list_all (\<lambda>(ft, m). list_all (\<lambda>sv. sv \<in> set (keys m)) SEVERITIES) SEVERITY_LABELS"
    by (simp add: SEVERITY_LABELS_def SEVERITIES_def keys_def sev3_def)
  moreover have "list_all (\<lambda>sv. sv \<in> set (keys TIMING)
                      \<and> sv \<noteq> ''type'' \<and> sv \<noteq> ''category'' \<and> sv \<noteq> ''label'') SEVERITIES"
    by (simp add: SEVERITIES_def keys_def TIMING_def)
  ultimately show ?thesis
    unfolding tables_complete_def by (simp add: module_tables_def)
qed

lemma getitem_in_set:
  assumes "k \<in> set (keys d)"
  shows "\<exists>v. getitem d k = Inr v \<and> (k, v) \<in> set d"
proof -
  from assms have "map_of d k \<noteq> None" by (simp add: keys_def map_of_eq_None_iff)
  then obtain v where "map_of d k = Some v" by blast
  then show ?thesis by (auto simp: getitem_def dest: map_of_SomeD)
qed

lemma declared_lookups:
  assumes "tables_complete T"
    and "ft \<in> set (keys (fault_definitions T))"
    and "tt \<in> set (keys (target_tiers T))"
    and "sv \<in> set (severities T)"
  shows "\<exists>fd tier tm params labels label slugs slug.
           getitem (fault_definitions T) ft = Inr fd
           \<and> getitem (target_tiers T) tt = Inr tier
           \<and> getitem (timing_table T) sv = Inr tm
           \<and> fault_def_items fd sv = Inr params
           \<and> getitem (severity_labels T) ft = Inr labels \<and> getitem labels sv = Inr label
           \<and> getitem (severity_slugs T) ft = Inr slugs \<and> getitem slugs sv = Inr slug"
proof -
  from assms(1) have
    c1: "\<forall>(ft, fd) \<in> set (fault_definitions T). \<forall>sv \<in> set (severities T). sv \<in> set (keys (fd_severities fd))" and
    c2: "\<forall>ft \<in> set (keys (fault_definitions T)).
           ft \<in> set (keys (severity_slugs T)) \<and> ft \<in> set (keys (severity_labels T))" and
    c3: "\<forall>(ft, m) \<in> set (severity_slugs T). \<forall>sv \<in> set (severities T). sv \<in> set (keys m)" and
    c4: "\<forall>(ft, m) \<in> set (severity_labels T). \<forall>sv \<in> set (severities T). sv \<in> set (keys m)" and
    c5: "\<forall>sv \<in> set (severities T). sv \<in> set (keys (timing_table T))
           \<and> sv \<noteq> ''type'' \<and> sv \<noteq> ''category'' \<and> sv \<noteq> ''label''"
    unfolding tables_complete_def by (simp_all add: list_all_iff)
  from getitem_in_set[OF assms(2)] obtain fd where
    fd: "getitem (fault_definitions T) ft = Inr fd" "(ft, fd) \<in> set (fault_definitions T)" by blast
  with c1 assms(4) have "sv \<in> set (keys (fd_severities fd))" by blast
  from getitem_in[OF this] c5 assms(4) obtain params where
    params: "fault_def_items fd sv = Inr params" by (auto simp: fault_def_items_def)
  from c2 assms(2) have "ft \<in> set (keys (severity_labels T))" by blast
  from getitem_in_set[OF this] obtain labels where
    labels: "getitem (severity_labels T) ft = Inr labels" "(ft, labels) \<in> set (severity_labels T)" by blast
  with c4 assms(4) have "sv \<in> set (keys labels)" by blast
  from getitem_in[OF this] obtain label where label: "getitem labels sv = Inr label" by blast
  from c2 assms(2) have "ft \<in> set (keys (severity_slugs T))" by blast
  from getitem_in_set[OF this] obtain slugs where
    slugs: "getitem (severity_slugs T) ft = Inr slugs" "(ft, slugs) \<in> set (severity_slugs T)" by blast
  with c3 assms(4) have "sv \<in> set (keys slugs)" by blast
  from getitem_in[OF this] obtain slug where slug: "getitem slugs sv = Inr slug" by blast
  from c5 assms(4) have "sv \<in> set (keys (timing_table T))" by blast
  from getitem_in[OF this] obtain tm where tm: "getitem (timing_table T) sv = Inr tm" by blast
  from getitem_in[OF assms(3)] obtain tier where tier: "getitem (target_tiers T) tt = Inr tier" by blast
  from fd(1) tier tm params labels(1) label slugs(1) slug show ?thesis by blast
qed

lemma build_scenario_declared:
  assumes "tables_complete T"
    and "ft \<in> set (keys (fault_definitions T))"
    and "tt \<in> set (keys (target_tiers T))"
    and "sv \<in> set (severities T)"
  shows "\<exists>r slugs slug tier. build_scenario T ft tt sv = Inr r
           \<and> getitem (severity_slugs T) ft = Inr slugs \<and> getitem slugs sv = Inr slug
           \<and> getitem (target_tiers T) tt = Inr tier
           \<and> md_name (metadata r) =
               ''gen'' @ ''-'' @ str_replace CHR ''_'' CHR ''-'' ft @ ''-'' @ slug @ ''-''
                 @ str_replace CHR ''_'' CHR ''-'' tt
           \<and> sp_targets (spec r) = map build_target (t_selectors tier)
           \<and> length (sp_faults (spec r)) = length (t_selectors tier)"
proof -
  from declared_lookups[OF assms] obtain fd tier tm params labels label slugs slug where
    l: "getitem (fault_definitions T) ft = Inr fd" "getitem (target_tiers T) tt = Inr tier"
       "getitem (timing_table T) sv = Inr tm" "fault_def_items fd sv = Inr params"
       "getitem (severity_labels T) ft = Inr labels" "getitem labels sv = Inr label"
       "getitem (severity_slugs T) ft = Inr slugs" "getitem slugs sv = Inr slug"
    by blast
  from build_scenario_ok[OF l] l(7,8,2) show ?thesis by blast
qed

lemma print_list_row_declared:
  assumes "tables_complete T"
    and "ft \<in> set (keys (fault_definitions T))"
    and "tt \<in> set (keys (target_tiers T))"
    and "sv \<in> set (severities T)"
  shows "\<exists>slugs slug desc category dur.
           getitem (severity_slugs T) ft = Inr slugs \<and> getitem slugs sv = Inr slug
           \<and> print_list_row T [ft, tt, sv] =
               Inr (''gen-'' @ str_replace CHR ''_'' CHR ''-'' ft @ ''-'' @ slug @ ''-''
                      @ str_replace CHR ''_'' CHR ''-'' tt, desc, category, dur)"
proof -
  from declared_lookups[OF assms] obtain fd tier tm params labels label slugs slug where
    l: "getitem (fault_definitions T) ft = Inr fd" "getitem (target_tiers T) tt = Inr tier"
       "getitem (timing_table T) sv = Inr tm" "fault_def_items fd sv = Inr params"
       "getitem (severity_labels T) ft = Inr labels" "getitem labels sv = Inr label"
       "getitem (severity_slugs T) ft = Inr slugs" "getitem slugs sv = Inr slug"
    by blast
  then show ?thesis by (simp add: Let_def)
qed

lemma build_scenario_missing_fault:
  "ft \<notin> set (keys (fault_definitions T)) \<Longrightarrow> build_scenario T ft tt sv = Inl (KeyError ft)"
  by (simp add: build_scenario_def getitem_notin)

lemma build_scenario_missing_tier:
  assumes "ft \<in> set (keys (fault_definitions T))" and "tt \<notin> set (keys (target_tiers T))"
  shows "build_scenario T ft tt sv = Inl (KeyError tt)"
proof -
  from getitem_in[OF assms(1)] obtain fd where "getitem (fault_definitions T) ft = Inr fd" by blast
  then show ?thesis by (simp add: build_scenario_def getitem_notin[OF assms(2)])
qed

lemma build_scenario_missing_severity:
  assumes "ft \<in> set (keys (fault_definitions T))" and "tt \<in> set (keys (target_tiers T))"
    and "sv \<notin> set (keys (timing_table T))"
  shows "build_scenario T ft tt sv = Inl (KeyError sv)"
proof -
  from getitem_in[OF assms(1)] obtain fd where "getitem (fault_definitions T) ft = Inr fd" by blast
  moreover from getitem_in[OF assms(2)] obtain tier where "getitem (target_tiers T) tt = Inr tier" by blast
  ultimately show ?thesis by (simp add: build_scenario_def getitem_notin[OF assms(3)])
qed

lemma keys_TIMING: "keys TIMING = SEVERITIES"
  by (simp add: keys_def TIMING_def SEVERITIES_def)

lemma module_tables_fields:
  "fault_definitions module_tables = FAULT_DEFINITIONS"
  "target_tiers module_tables = TARGET_TIERS"
  "severities module_tables = SEVERITIES"
  "timing_table module_tables = TIMING"
  "severity_slugs module_tables = SEVERITY_SLUGS"
  "severity_labels module_tables = SEVERITY_LABELS"
  by (simp_all add: module_tables_def)

text \<open>
  Claim C7. On the module's tables, \<open>build_scenario\<close> raises \<open>KeyError\<close> (a \<open>LookupError\<close>)
  carrying the missing key when the fault type is not in the fault table, when the target
  tier is not in the tier table, or when the severity is not a declared severity (the keys
  are looked up in this order, and the first missing one is reported); and it returns a
  record when all three values are declared dimension values.
\<close>

theorem build_scenario_lookup_errors:
  "(ft \<notin> set (keys FAULT_DEFINITIONS) \<longrightarrow>
      build_scenario module_tables ft tt sv = Inl (KeyError ft))
   \<and> (ft \<in> set (keys FAULT_DEFINITIONS) \<and> tt \<notin> set (keys TARGET_TIERS) \<longrightarrow>
      build_scenario module_tables ft tt sv = Inl (KeyError tt))
   \<and> (ft \<in> set (keys FAULT_DEFINITIONS) \<and> tt \<in> set (keys TARGET_TIERS) \<and> sv \<notin> set SEVERITIES \<longrightarrow>
      build_scenario module_tables ft tt sv = Inl (KeyError sv))
   \<and> (ft \<in> set (keys FAULT_DEFINITIONS) \<and> tt \<in> set (keys TARGET_TIERS) \<and> sv \<in> set SEVERITIES \<longrightarrow>
      (\<exists>r. build_scenario module_tables ft tt sv = Inr r))"
proof (intro conjI impI)
  assume "ft \<notin> set (keys FAULT_DEFINITIONS)"
  then show "build_scenario module_tables ft tt sv = Inl (KeyError ft)"
    by (simp add: build_scenario_missing_fault module_tables_fields)
next
  assume "ft \<in> set (keys FAULT_DEFINITIONS) \<and> tt \<notin> set (keys TARGET_TIERS)"
  then show "build_scenario module_tables ft tt sv = Inl (KeyError tt)"
    by (simp add: build_scenario_missing_tier module_tables_fields)
next
  assume "ft \<in> set (keys FAULT_DEFINITIONS) \<and> tt \<in> set (keys TARGET_TIERS) \<and> sv \<notin> set SEVERITIES"
  then show "build_scenario module_tables ft tt sv = Inl (KeyError sv)"
    by (simp add: build_scenario_missing_severity module_tables_fields keys_TIMING)
next
  assume "ft \<in> set (keys FAULT_DEFINITIONS) \<and> tt \<in> set (keys TARGET_TIERS) \<and> sv \<in> set SEVERITIES"
  then show "\<exists>r. build_scenario module_tables ft tt sv = Inr r"
    using build_scenario_declared[OF tables_complete_module, of ft tt sv]
    by (auto simp: module_tables_fields)
qed

theorem build_scenario_lookup_errors_witness:
  "build_scenario module_tables ''power_cut'' ''rabbitmq'' ''mild'' = Inl (KeyError ''power_cut'')
   \<and> build_scenario module_tables ''disk_io'' ''archive_nodes'' ''mild'' = Inl (KeyError ''archive_nodes'')
   \<and> build_scenario module_tables ''disk_io'' ''rabbitmq'' ''extreme'' = Inl (KeyError ''extreme'')
   \<and> (\<exists>r. build_scenario module_tables ''disk_io'' ''rabbitmq'' ''mild'' = Inr r)"
proof -
  have f: "''power_cut'' \<notin> set (keys FAULT_DEFINITIONS)" "''disk_io'' \<in> set (keys FAULT_DEFINITIONS)"
    by (simp_all add: keys_FAULT_DEFINITIONS)
  have t: "''archive_nodes'' \<notin> set (keys TARGET_TIERS)" "''rabbitmq'' \<in> set (keys TARGET_TIERS)"
    by (simp_all add: keys_TARGET_TIERS)
  have s: "''extreme'' \<notin> set SEVERITIES" "''mild'' \<in> set SEVERITIES"
    by (simp_all add: SEVERITIES_def)
  note w1 = build_scenario_lookup_errors[of "''power_cut''" "''rabbitmq''" "''mild''",
      THEN conjunct1, THEN mp, OF f(1)]
  note w2 = build_scenario_lookup_errors[of "''disk_io''" "''archive_nodes''" "''mild''",
      THEN conjunct2, THEN conjunct1, THEN mp, OF conjI[OF f(2) t(1)]]
  note w3 = build_scenario_lookup_errors[of "''disk_io''" "''rabbitmq''" "''extreme''",
      THEN conjunct2, THEN conjunct2, THEN conjunct1, THEN mp, OF conjI[OF f(2) conjI[OF t(2) s(1)]]]
  note w4 = build_scenario_lookup_errors[of "''disk_io''" "''rabbitmq''" "''mild''",
      THEN conjunct2, THEN conjunct2, THEN conjunct2, THEN mp, OF conjI[OF f(2) conjI[OF t(2) s(2)]]]
  from w1 w2 w3 w4 show ?thesis by (intro conjI)
qed

text \<open>
  Claim C10. For every combination of declared dimension values, the name that the preview
  listing computes for its row equals the metadata name of the record that the scenario
  builder returns for the same combination.
\<close>

theorem preview_name_agrees:
  "\<forall>ft \<in> set (keys FAULT_DEFINITIONS). \<forall>tt \<in> set (keys TARGET_TIERS). \<forall>sv \<in> set SEVERITIES.
     \<exists>r name desc category dur.
       build_scenario module_tables ft tt sv = Inr r
       \<and> print_list_rows module_tables [[ft, tt, sv]] = Inr [(name, desc, category, dur)]
       \<and> name = md_name (metadata r)"
proof (intro ballI)
  fix ft tt sv
  assume "ft \<in> set (keys FAULT_DEFINITIONS)" "tt \<in> set (keys TARGET_TIERS)" "sv \<in> set SEVERITIES"
  then have d: "ft \<in> set (keys (fault_definitions module_tables))"
    "tt \<in> set (keys (target_tiers module_tables))" "sv \<in> set (severities module_tables)"
    by (simp_all add: module_tables_fields)
  from build_scenario_declared[OF tables_complete_module d] obtain r slugs slug where
    b: "build_scenario module_tables ft tt sv = Inr r"
       "getitem (severity_slugs module_tables) ft = Inr slugs" "getitem slugs sv = Inr slug"
       "md_name (metadata r) =
               ''gen'' @ ''-'' @ str_replace CHR ''_'' CHR ''-'' ft @ ''-'' @ slug @ ''-''
                 @ str_replace CHR ''_'' CHR ''-'' tt"
    by blast
  from print_list_row_declared[OF tables_complete_module d] b(2,3) obtain desc category dur where
    p: "print_list_row module_tables [ft, tt, sv] =
               Inr (''gen-'' @ str_replace CHR ''_'' CHR ''-'' ft @ ''-'' @ slug @ ''-''
                      @ str_replace CHR ''_'' CHR ''-'' tt, desc, category, dur)"
    by auto
  from b(1,4) p show "\<exists>r name desc category dur.
       build_scenario module_tables ft tt sv = Inr r
       \<and> print_list_rows module_tables [[ft, tt, sv]] = Inr [(name, desc, category, dur)]
       \<and> name = md_name (metadata r)"
    by (simp add: print_list_rows_def)
qed

theorem preview_name_agrees_witness:
  "\<exists>r name desc category dur.
       build_scenario module_tables ''dns_latency'' ''all_bor'' ''severe'' = Inr r
       \<and> print_list_rows module_tables [[''dns_latency'', ''all_bor'', ''severe'']]
            = Inr [(name, desc, category, dur)]
       \<and> name = md_name (metadata r)"
proof -
  have "''dns_latency'' \<in> set (keys FAULT_DEFINITIONS)" by (simp add: keys_FAULT_DEFINITIONS)
  moreover have "''all_bor'' \<in> set (keys TARGET_TIERS)" by (simp add: keys_TARGET_TIERS)
  moreover have "''severe'' \<in> set SEVERITIES" by (simp add: SEVERITIES_def)
  ultimately show ?thesis by (rule preview_name_agrees[rule_format])
qed

section \<open>Injectivity of the scenario name\<close>

lemma getitem_Inr_mem: "getitem d k = Inr v \<Longrightarrow> (k, v) \<in> set d"
  by (auto simp: getitem_def split: option.splits dest: map_of_SomeD)

lemma append_eq_prefix: "a @ x = b @ y \<Longrightarrow> prefix a b \<or> prefix b a"
  by (auto simp: append_eq_append_conv2 prefix_def)

lemma split_at_separator:
  assumes "c \<notin> set a" and "c \<notin> set b" and "a @ c # x = b @ c # y"
  shows "a = b \<and> x = y"
  using assms
proof (induction a arbitrary: b)
  case Nil
  then show ?case by (cases b) auto
next
  case (Cons h a)
  then show ?case by (cases b) auto
qed

lemma names_separable_module: "names_separable module_tables"
proof -
  have "map (\<lambda>ft. str_replace CHR ''_'' CHR ''-'' ft @ ''-'') (keys FAULT_DEFINITIONS) =
     [''packet-loss-'', ''latency-'', ''bandwidth-throttle-'', ''packet-reorder-'',
      ''connection-drop-'', ''dns-latency-'', ''container-restart-'', ''container-pause-'',
      ''cpu-stress-'', ''memory-pressure-'', ''disk-io-'']" (is "?fs = ?l")
    by (simp add: keys_FAULT_DEFINITIONS str_replace_def)
  moreover have "distinct ?l" by simp
  moreover have "list_all (\<lambda>a. list_all (\<lambda>b. prefix a b \<longrightarrow> a = b) ?l) ?l" by simp
  moreover have "distinct (map (str_replace CHR ''_'' CHR ''-'') (keys TARGET_TIERS))"
    by (simp add: keys_TARGET_TIERS str_replace_def)
  moreover have "list_all (\<lambda>(ft, slugs). distinct (map snd slugs)
                   \<and> list_all (\<lambda>(sv, slug). CHR ''-'' \<notin> set slug) slugs) SEVERITY_SLUGS"
    by (simp add: SEVERITY_SLUGS_def sev3_def)
  ultimately show ?thesis
    unfolding names_separable_def Let_def
    by (simp only: module_tables_fields)
qed

lemma scenario_name_injective:
  assumes sep: "names_separable T"
    and f: "ft1 \<in> set (keys (fault_definitions T))" "ft2 \<in> set (keys (fault_definitions T))"
    and t: "tt1 \<in> set (keys (target_tiers T))" "tt2 \<in> set (keys (target_tiers T))"
    and s1: "getitem (severity_slugs T) ft1 = Inr slugs1" "getitem slugs1 sv1 = Inr slug1"
    and s2: "getitem (severity_slugs T) ft2 = Inr slugs2" "getitem slugs2 sv2 = Inr slug2"
    and eq: "''gen'' @ ''-'' @ str_replace CHR ''_'' CHR ''-'' ft1 @ ''-'' @ slug1 @ ''-''
               @ str_replace CHR ''_'' CHR ''-'' tt1
           = ''gen'' @ ''-'' @ str_replace CHR ''_'' CHR ''-'' ft2 @ ''-'' @ slug2 @ ''-''
               @ str_replace CHR ''_'' CHR ''-'' tt2"
  shows "ft1 = ft2 \<and> tt1 = tt2 \<and> sv1 = sv2"
proof -
  let ?R = "str_replace CHR ''_'' CHR ''-''"
  let ?P = "\<lambda>ft. ?R ft @ ''-''"
  from sep have
    pf: "\<forall>a \<in> set (keys (fault_definitions T)). \<forall>b \<in> set (keys (fault_definitions T)).
           prefix (?P a) (?P b) \<longrightarrow> ?P a = ?P b" and
    fd: "distinct (map ?P (keys (fault_definitions T)))" and
    td: "distinct (map ?R (keys (target_tiers T)))" and
    sl: "\<forall>(ft, slugs) \<in> set (severity_slugs T). distinct (map snd slugs)
           \<and> (\<forall>(sv, slug) \<in> set slugs. CHR ''-'' \<notin> set slug)"
    unfolding names_separable_def Let_def by (auto simp: list_all_iff)
  from eq have e1: "?P ft1 @ (slug1 @ ''-'' @ ?R tt1) = ?P ft2 @ (slug2 @ ''-'' @ ?R tt2)"
    by simp
  from append_eq_prefix[OF e1] pf f have "?P ft1 = ?P ft2" by metis
  with fd f have ft: "ft1 = ft2" by (meson distinct_map inj_onD)
  from e1 \<open>?P ft1 = ?P ft2\<close> have e2: "slug1 @ CHR ''-'' # ?R tt1 = slug2 @ CHR ''-'' # ?R tt2"
    by simp
  from s1 s2 ft have slugs: "slugs2 = slugs1" by simp
  from getitem_Inr_mem[OF s1(1)] sl have
    d: "distinct (map snd slugs1)" and h: "\<forall>(sv, slug) \<in> set slugs1. CHR ''-'' \<notin> set slug"
    by auto
  have m1: "(sv1, slug1) \<in> set slugs1" using s1(2) by (rule getitem_Inr_mem)
  have m2: "(sv2, slug2) \<in> set slugs1" using s2(2) slugs by (auto dest: getitem_Inr_mem)
  from h m1 m2 have "CHR ''-'' \<notin> set slug1" "CHR ''-'' \<notin> set slug2" by auto
  from split_at_separator[OF this e2] have sg: "slug1 = slug2" and tr: "?R tt1 = ?R tt2" by simp_all
  from d have "inj_on snd (set slugs1)" by (simp add: distinct_map)
  from inj_onD[OF this _ m1 m2] sg have "sv1 = sv2" by simp
  moreover from td t tr have "tt1 = tt2" by (meson distinct_map inj_onD)
  ultimately show ?thesis using ft by simp
qed

text \<open>
  Claim C4. The scenario name is injective over the full combination domain: two different
  combinations of declared values both assemble to a record, and the names of the two
  records differ.
\<close>

theorem scenario_names_injective:
  "\<forall>ft1 \<in> set (keys FAULT_DEFINITIONS). \<forall>tt1 \<in> set (keys TARGET_TIERS). \<forall>sv1 \<in> set SEVERITIES.
   \<forall>ft2 \<in> set (keys FAULT_DEFINITIONS). \<forall>tt2 \<in> set (keys TARGET_TIERS). \<forall>sv2 \<in> set SEVERITIES.
     [ft1, tt1, sv1] \<in> set (full_combinations module_tables)
     \<and> [ft2, tt2, sv2] \<in> set (full_combinations module_tables)
     \<and> ([ft1, tt1, sv1] \<noteq> [ft2, tt2, sv2] \<longrightarrow>
          (\<exists>r1 r2. build_scenario module_tables ft1 tt1 sv1 = Inr r1
             \<and> build_scenario module_tables ft2 tt2 sv2 = Inr r2
             \<and> md_name (metadata r1) \<noteq> md_name (metadata r2)))"
proof (intro ballI conjI impI)
  fix ft1 tt1 sv1 ft2 tt2 sv2
  assume m1: "ft1 \<in> set (keys FAULT_DEFINITIONS)" "tt1 \<in> set (keys TARGET_TIERS)" "sv1 \<in> set SEVERITIES"
    and m2: "ft2 \<in> set (keys FAULT_DEFINITIONS)" "tt2 \<in> set (keys TARGET_TIERS)" "sv2 \<in> set SEVERITIES"
  show "[ft1, tt1, sv1] \<in> set (full_combinations module_tables)"
    unfolding full_combinations_module itertools_product3_set using m1 by blast
  show "[ft2, tt2, sv2] \<in> set (full_combinations module_tables)"
    unfolding full_combinations_module itertools_product3_set using m2 by blast
  assume ne: "[ft1, tt1, sv1] \<noteq> [ft2, tt2, sv2]"
  from m1 have d1: "ft1 \<in> set (keys (fault_definitions module_tables))"
    "tt1 \<in> set (keys (target_tiers module_tables))" "sv1 \<in> set (severities module_tables)"
    by (simp_all add: module_tables_fields)
  from m2 have d2: "ft2 \<in> set (keys (fault_definitions module_tables))"
    "tt2 \<in> set (keys (target_tiers module_tables))" "sv2 \<in> set (severities module_tables)"
    by (simp_all add: module_tables_fields)
  from build_scenario_declared[OF tables_complete_module d1] obtain r1 slugs1 slug1 where
    b1: "build_scenario module_tables ft1 tt1 sv1 = Inr r1"
       "getitem (severity_slugs module_tables) ft1 = Inr slugs1" "getitem slugs1 sv1 = Inr slug1"
       "md_name (metadata r1) =
               ''gen'' @ ''-'' @ str_replace CHR ''_'' CHR ''-'' ft1 @ ''-'' @ slug1 @ ''-''
                 @ str_replace CHR ''_'' CHR ''-'' tt1"
    by blast
  from build_scenario_declared[OF tables_complete_module d2] obtain r2 slugs2 slug2 where
    b2: "build_scenario module_tables ft2 tt2 sv2 = Inr r2"
       "getitem (severity_slugs module_tables) ft2 = Inr slugs2" "getitem slugs2 sv2 = Inr slug2"
       "md_name (metadata r2) =
               ''gen'' @ ''-'' @ str_replace CHR ''_'' CHR ''-'' ft2 @ ''-'' @ slug2 @ ''-''
                 @ str_replace CHR ''_'' CHR ''-'' tt2"
    by blast
  have "md_name (metadata r1) \<noteq> md_name (metadata r2)"
  proof
    assume "md_name (metadata r1) = md_name (metadata r2)"
    then have "''gen'' @ ''-'' @ str_replace CHR ''_'' CHR ''-'' ft1 @ ''-'' @ slug1 @ ''-''
                 @ str_replace CHR ''_'' CHR ''-'' tt1
             = ''gen'' @ ''-'' @ str_replace CHR ''_'' CHR ''-'' ft2 @ ''-'' @ slug2 @ ''-''
                 @ str_replace CHR ''_'' CHR ''-'' tt2"
      by (simp only: b1(4) b2(4))
    from scenario_name_injective[OF names_separable_module d1(1) d2(1) d1(2) d2(2) b1(2,3) b2(2,3) this]
    show False using ne by simp
  qed
  with b1(1) b2(1) show "\<exists>r1 r2. build_scenario module_tables ft1 tt1 sv1 = Inr r1
             \<and> build_scenario module_tables ft2 tt2 sv2 = Inr r2
             \<and> md_name (metadata r1) \<noteq> md_name (metadata r2)" by blast
qed

theorem scenario_names_injective_witness:
  "\<exists>r1 r2. build_scenario module_tables ''packet_loss'' ''rabbitmq'' ''mild'' = Inr r1
     \<and> build_scenario module_tables ''connection_drop'' ''rabbitmq'' ''mild'' = Inr r2
     \<and> md_name (metadata r1) \<noteq> md_name (metadata r2)"
proof -
  have f: "''packet_loss'' \<in> set (keys FAULT_DEFINITIONS)" "''connection_drop'' \<in> set (keys FAULT_DEFINITIONS)"
    by (simp_all add: keys_FAULT_DEFINITIONS)
  have t: "''rabbitmq'' \<in> set (keys TARGET_TIERS)" by (simp add: keys_TARGET_TIERS)
  have s: "''mild'' \<in> set SEVERITIES" by (simp add: SEVERITIES_def)
  have ne: "[''packet_loss'', ''rabbitmq'', ''mild''] \<noteq> [''connection_drop'', ''rabbitmq'', ''mild'']"
    by simp
  from scenario_names_injective[rule_format, OF f(1) t s f(2) t s, THEN conjunct2, THEN conjunct2,
      THEN mp, OF ne]
  show ?thesis .
qed

section \<open>The generation loop and unvalidated tables\<close>

lemmas example_eval =
  main_def full_combinations_def dimensions_def keys_def example_tables_def rabbitmq_selector_def
  build_scenario_def scenario_description_def build_fault_def build_target_def
  fault_def_items_def getitem_def str_replace_def spec_config_invalid_def Let_def
  print_list_def print_list_rows_def py_max_def

text \<open>
  Claim C8, as stated, fails on the code. For each of the three conditions there are tables
  that satisfy it and on which no configuration error is raised before generation. With an
  empty severity dimension \<open>main\<close> ends normally, having written nothing (and with \<open>--list\<close>
  it raises \<open>ValueError\<close> in \<open>_print_list\<close>); with a fault type that lacks the parameter set
  of \<open>moderate\<close>, one file is written and then \<open>KeyError\<close> is raised; with a target tier
  without selectors \<open>main\<close> writes its file and ends normally.
\<close>

theorem config_error_counterexample:
  "spec_config_invalid (example_tables [rabbitmq_selector] [])
   \<and> main (example_tables [rabbitmq_selector] []) False False None = (None, [], None)
   \<and> main (example_tables [rabbitmq_selector] []) False True None = (None, [], Some ValueError)
   \<and> spec_config_invalid (example_tables [rabbitmq_selector] [''mild'', ''moderate''])
   \<and> length (fst (snd (main (example_tables [rabbitmq_selector] [''mild'', ''moderate''])
                          False False None))) = 1
   \<and> snd (snd (main (example_tables [rabbitmq_selector] [''mild'', ''moderate'']) False False None))
        = Some (KeyError ''moderate'')
   \<and> spec_config_invalid (example_tables [] [''mild''])
   \<and> length (fst (snd (main (example_tables [] [''mild'']) False False None))) = 1
   \<and> snd (snd (main (example_tables [] [''mild'']) False False None)) = None"
  by (simp add: example_eval)

lemma itertools_product_empty_dimension:
  "[] \<in> set dims \<Longrightarrow> itertools_product dims = []"
  by (induction dims) auto

lemma builtin_greedy_no_combinations:
  "itertools_product dims = [] \<Longrightarrow> builtin_greedy dims = []"
  by (simp add: builtin_greedy_def Let_def pairwise_loop.simps find_best_Nil)

lemma build_scenario_missing_params:
  assumes "getitem (fault_definitions T) ft = Inr fd"
    and "tt \<in> set (keys (target_tiers T))"
    and "sv \<in> set (keys (timing_table T))"
    and "sv \<notin> set (keys (fd_severities fd))"
  shows "build_scenario T ft tt sv =
           Inl (if sv = ''type'' \<or> sv = ''category'' \<or> sv = ''label''
                then AttributeError ''items'' else KeyError sv)"
proof -
  from getitem_in[OF assms(2)] obtain tier where "getitem (target_tiers T) tt = Inr tier" by blast
  moreover from getitem_in[OF assms(3)] obtain tm where "getitem (timing_table T) sv = Inr tm" by blast
  moreover have "fault_def_items fd sv =
           Inl (if sv = ''type'' \<or> sv = ''category'' \<or> sv = ''label''
                then AttributeError ''items'' else KeyError sv)"
    using getitem_notin[OF assms(4)] by (simp add: fault_def_items_def)
  ultimately show ?thesis using assms(1) by (simp add: build_scenario_def Let_def)
qed

lemma print_list_no_combinations: "print_list T [] = Inl ValueError"
  by (simp add: print_list_def print_list_rows_def py_max_def)

text \<open>
  Claim C8, amended. The tables are not validated and the code has no configuration error.
  When a dimension is empty, the full enumeration and the built-in greedy pairwise
  reduction (the pairwise strategy without the external library) return the empty list;
  with either of them \<open>main\<close> writes nothing and raises nothing, except with \<open>--list\<close>, where
  \<open>_print_list\<close> raises \<open>ValueError\<close> (the maximum of an empty sequence) and nothing is
  written either. When a fault type lacks the parameter set of a severity that has a
  timing profile, \<open>build_scenario\<close> for such a combination raises \<open>KeyError\<close> with that
  severity (\<open>AttributeError\<close> if the severity is spelled \<open>type\<close>, \<open>category\<close> or \<open>label\<close>),
  and the writing loop of \<open>main\<close> stops with that error, keeping the files written before.
  When a target tier has no selectors and the tables are otherwise complete,
  \<open>build_scenario\<close> raises nothing and returns a record without targets and without
  faults.
\<close>

theorem tables_not_validated:
  "(list_ex (\<lambda>d. d = []) (dimensions T) \<longrightarrow>
      full_combinations T = [] \<and> pairwise_combinations T None = []
      \<and> main T False False allpairspy = (None, [], None)
      \<and> main T True False None = (None, [], None)
      \<and> main T False True allpairspy = (None, [], Some ValueError)
      \<and> main T True True None = (None, [], Some ValueError))
   \<and> (getitem (fault_definitions T) ft = Inr fd \<and> tt \<in> set (keys (target_tiers T))
        \<and> sv \<in> set (keys (timing_table T)) \<and> sv \<notin> set (keys (fd_severities fd)) \<longrightarrow>
      build_scenario T ft tt sv =
        Inl (if sv = ''type'' \<or> sv = ''category'' \<or> sv = ''label''
             then AttributeError ''items'' else KeyError sv))
   \<and> (build_scenario T ft tt sv = Inl e \<longrightarrow>
      write_scenarios T ([ft, tt, sv] # rest) written = (written, Some e))
   \<and> (tables_complete T \<and> ft \<in> set (keys (fault_definitions T)) \<and> sv \<in> set (severities T)
        \<and> getitem (target_tiers T) tt = Inr tier \<and> t_selectors tier = [] \<longrightarrow>
      (\<exists>r. build_scenario T ft tt sv = Inr r
         \<and> sp_targets (spec r) = [] \<and> sp_faults (spec r) = []))"
proof (intro conjI impI)
  assume "list_ex (\<lambda>d. d = []) (dimensions T)"
  then have "[] \<in> set (dimensions T)" by (auto simp: list_ex_iff)
  then have e: "itertools_product (dimensions T) = []" by (rule itertools_product_empty_dimension)
  then show f: "full_combinations T = []" by (simp add: full_combinations_dimensions)
  from e show p: "pairwise_combinations T None = []"
    by (simp add: pairwise_combinations_def builtin_greedy_no_combinations)
  from f show "main T False False allpairspy = (None, [], None)" by (simp add: main_def)
  from p show "main T True False None = (None, [], None)" by (simp add: main_def)
  from f show "main T False True allpairspy = (None, [], Some ValueError)"
    by (simp add: main_def print_list_no_combinations)
  from p show "main T True True None = (None, [], Some ValueError)"
    by (simp add: main_def print_list_no_combinations)
next
  assume "getitem (fault_definitions T) ft = Inr fd \<and> tt \<in> set (keys (target_tiers T))
        \<and> sv \<in> set (keys (timing_table T)) \<and> sv \<notin> set (keys (fd_severities fd))"
  then show "build_scenario T ft tt sv =
        Inl (if sv = ''type'' \<or> sv = ''category'' \<or> sv = ''label''
             then AttributeError ''items'' else KeyError sv)"
    using build_scenario_missing_params by blast
next
  assume "build_scenario T ft tt sv = Inl e"
  then show "write_scenarios T ([ft, tt, sv] # rest) written = (written, Some e)" by simp
next
  assume a: "tables_complete T \<and> ft \<in> set (keys (fault_definitions T)) \<and> sv \<in> set (severities T)
        \<and> getitem (target_tiers T) tt = Inr tier \<and> t_selectors tier = []"
  then have "tt \<in> set (keys (target_tiers T))"
    by (auto simp: keys_def dest!: getitem_Inr_mem intro: rev_image_eqI)
  with a build_scenario_declared[of T ft tt sv] obtain r tier' where
    r: "build_scenario T ft tt sv = Inr r" "getitem (target_tiers T) tt = Inr tier'"
       "sp_targets (spec r) = map build_target (t_selectors tier')"
       "length (sp_faults (spec r)) = length (t_selectors tier')"
    by blast
  with a have "tier' = tier" by simp
  with r a show "\<exists>r. build_scenario T ft tt sv = Inr r
         \<and> sp_targets (spec r) = [] \<and> sp_faults (spec r) = []" by simp
qed

theorem tables_not_validated_witness:
  "full_combinations (example_tables [rabbitmq_selector] []) = []
   \<and> main (example_tables [rabbitmq_selector] []) True False None = (None, [], None)
   \<and> main (example_tables [rabbitmq_selector] []) True True None = (None, [], Some ValueError)
   \<and> build_scenario (example_tables [rabbitmq_selector] [''mild'', ''moderate''])
         ''cpu_stress'' ''rabbitmq'' ''moderate'' = Inl (KeyError ''moderate'')
   \<and> write_scenarios (example_tables [rabbitmq_selector] [''mild'', ''moderate''])
         [[''cpu_stress'', ''rabbitmq'', ''moderate'']] [] = ([], Some (KeyError ''moderate''))
   \<and> (\<exists>r. build_scenario (example_tables [] [''mild'']) ''cpu_stress'' ''rabbitmq'' ''mild'' = Inr r
          \<and> sp_targets (spec r) = [] \<and> sp_faults (spec r) = [])"
proof -
  let ?E = "example_tables [rabbitmq_selector] []"
  let ?M = "example_tables [rabbitmq_selector] [''mild'', ''moderate'']"
  let ?N = "example_tables [] [''mild'']"
  let ?fd = "\<lparr>fd_type = ''cpu_stress'', fd_category = ''cpu-memory'', fd_label = ''CPU stress'',
        fd_severities = [(''mild'', [(''cpu_percent'', PInt 50)])]\<rparr>"
  let ?tier = "\<lparr>t_label = ''RabbitMQ message broker'', t_selectors = []\<rparr>"
  have h1: "list_ex (\<lambda>d. d = []) (dimensions ?E)"
    by (simp add: dimensions_def example_tables_def)
  note c1 = tables_not_validated[where T = ?E and allpairspy = None, THEN conjunct1, THEN mp, OF h1]
  have h2: "getitem (fault_definitions ?M) ''cpu_stress'' = Inr ?fd
        \<and> ''rabbitmq'' \<in> set (keys (target_tiers ?M))
        \<and> ''moderate'' \<in> set (keys (timing_table ?M))
        \<and> ''moderate'' \<notin> set (keys (fd_severities ?fd))"
    by (simp add: example_tables_def getitem_def keys_def)
  note c2 = tables_not_validated[where T = ?M and ft = "''cpu_stress''" and tt = "''rabbitmq''"
      and sv = "''moderate''" and fd = ?fd, THEN conjunct2, THEN conjunct1, THEN mp, OF h2]
  from c2 have b: "build_scenario ?M ''cpu_stress'' ''rabbitmq'' ''moderate'' = Inl (KeyError ''moderate'')"
    by simp
  note c3 = tables_not_validated[where T = ?M and ft = "''cpu_stress''" and tt = "''rabbitmq''"
      and sv = "''moderate''" and e = "KeyError ''moderate''" and rest = "[]" and written = "[]",
      THEN conjunct2, THEN conjunct2, THEN conjunct1, THEN mp, OF b]
  have h4: "tables_complete ?N \<and> ''cpu_stress'' \<in> set (keys (fault_definitions ?N))
        \<and> ''mild'' \<in> set (severities ?N)
        \<and> getitem (target_tiers ?N) ''rabbitmq'' = Inr ?tier \<and> t_selectors ?tier = []"
    by (simp add: tables_complete_def example_tables_def getitem_def keys_def)
  note c4 = tables_not_validated[where T = ?N and ft = "''cpu_stress''" and tt = "''rabbitmq''"
      and sv = "''mild''" and tier = ?tier,
      THEN conjunct2, THEN conjunct2, THEN conjunct2, THEN mp, OF h4]
  from c1 b c3 c4 show ?thesis by simp
qed

end
